theory Spec2Isabelle
  imports Main "HOL-Library.Multiset" "HOL-Library.Monad_Syntax"
begin

section \<open>Task manager: request-to-storage mapping layer\<close>

text \<open>
  A shallow embedding of the four modules of the application:
  \<^item> \<open>app/models.py\<close>: the pydantic models \<open>TaskBase\<close>, \<open>TaskCreate\<close>, \<open>TaskUpdate\<close>, \<open>Task\<close>;
  \<^item> \<open>app/crud.py\<close>: the five repository coroutines;
  \<^item> \<open>app/main.py\<close>: the FastAPI handlers;
  \<^item> the datastore behind \<open>aiomysql\<close>, which is not part of the sources.

  Every coroutine takes the connection and returns its result; here the connection is the
  datastore state, passed in and returned updated. An exception is a \<open>None\<close> result of
  the storage call, so each \<open>except Exception\<close> of the source is a branch of the model.
\<close>

subsection \<open>Values and payloads\<close>

text \<open>
  A calendar date is year, month, day; a timestamp is a number of clock ticks.
  \<open>pyval\<close> is a decoded value of a request body or a statement parameter: \<open>None\<close>,
  a \<open>str\<close>, a \<open>date\<close> (the text of a date already parsed), or an \<open>int\<close> (a value that is
  neither text nor date). Text is a \<open>string\<close>, and \<open>length\<close> counts its characters.
  A number given where a date is expected is refused here; pydantic would read some
  numbers as a timestamp, which no property below depends on.
\<close>

type_synonym date = "nat \<times> nat \<times> nat"
type_synonym datetime = nat

datatype pyval = PNone | PStr string | PDate date | PInt int

type_synonym payload = "string \<rightharpoonup> pyval"

subsection \<open>app/models.py\<close>

text \<open>\<open>TaskStatus = Literal['pending', 'in_progress', 'completed']\<close>\<close>

definition TaskStatus :: "string list" where
  "TaskStatus = [''pending'', ''in_progress'', ''completed'']"

text \<open>
  \<open>TaskUpdate\<close> is declared first so that the plain field names \<open>title\<close>, \<open>description\<close>,
  \<open>status\<close>, \<open>due_date\<close> below are those of \<open>TaskBase\<close> and \<open>Task\<close>; the fields of an update
  are written \<open>TaskUpdate.title\<close> and so on. A pydantic model remembers which fields the
  caller supplied: \<open>model_fields_set\<close>.
\<close>

record TaskUpdate =
  title :: "string option"
  description :: "string option"
  status :: "string option"
  due_date :: "date option"
  model_fields_set :: "string set"

record TaskBase =
  title :: string
  description :: "string option"
  status :: string
  due_date :: "date option"

type_synonym TaskCreate = TaskBase

record Task = TaskBase +
  task_id :: int
  created_at :: datetime
  updated_at :: datetime

text \<open>Field validators: the type of a field, with the constraints of its \<open>Field(...)\<close>.\<close>

definition constrained_str :: "nat \<Rightarrow> nat \<Rightarrow> pyval \<Rightarrow> string option" where
  \<comment> \<open>\<open>str\<close> with \<open>min_length\<close> and \<open>max_length\<close>\<close>
  "constrained_str lo hi v =
     (case v of PStr s \<Rightarrow> if lo \<le> length s \<and> length s \<le> hi then Some s else None
              | _ \<Rightarrow> None)"

definition any_str :: "pyval \<Rightarrow> string option" where
  "any_str v = (case v of PStr s \<Rightarrow> Some s | _ \<Rightarrow> None)"

definition status_literal :: "pyval \<Rightarrow> string option" where
  "status_literal v =
     (case v of PStr s \<Rightarrow> if s \<in> set TaskStatus then Some s else None | _ \<Rightarrow> None)"

definition date_value :: "pyval \<Rightarrow> date option" where
  "date_value v = (case v of PDate d \<Rightarrow> Some d | _ \<Rightarrow> None)"

definition optional_of :: "(pyval \<Rightarrow> 'a option) \<Rightarrow> pyval \<Rightarrow> 'a option option" where
  \<comment> \<open>\<open>Optional[T]\<close>: \<open>None\<close> is accepted as it is, with no constraint of \<open>T\<close> applied\<close>
  "optional_of f v = (if v = PNone then Some None else map_option Some (f v))"

definition required :: "(pyval \<Rightarrow> 'a option) \<Rightarrow> pyval option \<Rightarrow> 'a option" where
  \<comment> \<open>\<open>Field(...)\<close>: a missing key is a validation error\<close>
  "required f x = (case x of None \<Rightarrow> None | Some v \<Rightarrow> f v)"

definition with_default :: "'a \<Rightarrow> (pyval \<Rightarrow> 'a option) \<Rightarrow> pyval option \<Rightarrow> 'a option" where
  \<comment> \<open>\<open>Field(default)\<close>: a missing key takes the default, which is not validated\<close>
  "with_default d f x = (case x of None \<Rightarrow> Some d | Some v \<Rightarrow> f v)"

text \<open>
  Validation of a request body against \<open>TaskCreate\<close> (the fields of \<open>TaskBase\<close>);
  \<open>None\<close> is pydantic's \<open>ValidationError\<close>. Keys that are no field are ignored.
\<close>

definition TaskCreate_validate :: "payload \<Rightarrow> TaskCreate option" where
  "TaskCreate_validate p = do {
     t \<leftarrow> required (constrained_str 1 255) (p ''title'');
     d \<leftarrow> with_default None (optional_of any_str) (p ''description'');
     s \<leftarrow> with_default ''pending'' status_literal (p ''status'');
     dd \<leftarrow> with_default None (optional_of date_value) (p ''due_date'');
     Some \<lparr>TaskBase.title = t, description = d, status = s, due_date = dd\<rparr>
   }"

text \<open>Validation against \<open>TaskUpdate\<close>: every field \<open>Optional\<close> with default \<open>None\<close>.\<close>

definition TaskUpdate_fields :: "string list" where
  "TaskUpdate_fields = [''title'', ''description'', ''status'', ''due_date'']"

definition TaskUpdate_validate :: "payload \<Rightarrow> TaskUpdate option" where
  "TaskUpdate_validate p = do {
     t \<leftarrow> with_default None (optional_of (constrained_str 1 255)) (p ''title'');
     d \<leftarrow> with_default None (optional_of any_str) (p ''description'');
     s \<leftarrow> with_default None (optional_of status_literal) (p ''status'');
     dd \<leftarrow> with_default None (optional_of date_value) (p ''due_date'');
     Some \<lparr>TaskUpdate.title = t, description = d, status = s, due_date = dd,
            model_fields_set = set (filter (\<lambda>k. p k \<noteq> None) TaskUpdate_fields)\<rparr>
   }"

text \<open>
  \<open>Task(**result)\<close>: a fetched row has the columns of \<open>Task\<close> with their types; what
  validation can still refuse is the length of the title and the status literal.
\<close>

definition Task_validate :: "Task \<Rightarrow> Task option" where
  "Task_validate r =
     (if 1 \<le> length (title r) \<and> length (title r) \<le> 255 \<and> status r \<in> set TaskStatus
      then Some r else None)"

text \<open>\<open>model_dump()\<close> lists the fields in declaration order; \<open>exclude_unset=True\<close> keeps
  the supplied ones.\<close>

definition str_or_none :: "string option \<Rightarrow> pyval" where
  "str_or_none x = (case x of None \<Rightarrow> PNone | Some s \<Rightarrow> PStr s)"

definition date_or_none :: "date option \<Rightarrow> pyval" where
  "date_or_none x = (case x of None \<Rightarrow> PNone | Some d \<Rightarrow> PDate d)"

definition model_dump :: "TaskUpdate \<Rightarrow> (string \<times> pyval) list" where
  "model_dump u =
     [(''title'', str_or_none (TaskUpdate.title u)),
      (''description'', str_or_none (TaskUpdate.description u)),
      (''status'', str_or_none (TaskUpdate.status u)),
      (''due_date'', date_or_none (TaskUpdate.due_date u))]"

definition model_dump_exclude_unset :: "TaskUpdate \<Rightarrow> (string \<times> pyval) list" where
  "model_dump_exclude_unset u = filter (\<lambda>kv. fst kv \<in> model_fields_set u) (model_dump u)"

subsection \<open>The datastore\<close>

text \<open>
  The statements that \<open>crud.py\<close> sends, one constructor per query text:
  \<^item> \<open>INSERT INTO tasks (title, description, status, due_date) VALUES (...)\<close>
  \<^item> \<open>SELECT * FROM tasks WHERE task_id = %s\<close>
  \<^item> \<open>SELECT * FROM tasks ORDER BY created_at DESC LIMIT %s OFFSET %s\<close>
  \<^item> \<open>UPDATE tasks SET k1 = %s, ... WHERE task_id = %s\<close>
  \<^item> \<open>DELETE FROM tasks WHERE task_id = %s\<close>
\<close>

datatype stmt =
    INSERT TaskBase
  | SELECT_ONE int
  | SELECT_PAGE int int
  | UPDATE "(string \<times> pyval) list" int
  | DELETE int

text \<open>What a cursor holds after \<open>execute\<close>.\<close>

record cursor =
  rowcount :: int
  lastrowid :: int
  fetched :: "Task list"

text \<open>
  The connection: the table, the next identifier to assign, the clock, the statements
  received so far, and two schedules that stand for what the datastore is free to do.
  Each \<open>execute\<close> takes the head of the fault schedule; \<open>True\<close> there makes the call raise
  before the statement takes effect (connection lost, timeout), and an empty schedule
  injects no fault. A call that raises after its statement took effect is not modelled.
  Each listing takes the head of \<open>tie_orders\<close>: the arrangement in which the datastore
  happens to hold the rows when it sorts them.
\<close>

record db =
  rows :: "Task list"
  next_id :: int
  clock :: datetime
  faults :: "bool list"
  tie_orders :: "Task list list"
  trace :: "stmt list"

text \<open>Modelled from the spec: the schema of table \<open>tasks\<close> is not among the sources.
  \<open>title\<close> is required text of at most 255 characters, \<open>description\<close> optional text,
  \<open>status\<close> required and one of the three values, \<open>due_date\<close> an optional date; a value
  that a column does not admit is a constraint violation.\<close>

definition set_column :: "string \<times> pyval \<Rightarrow> Task \<Rightarrow> Task option" where
  "set_column kv r =
     (if fst kv = ''title'' then
        (case snd kv of PStr s \<Rightarrow> if length s \<le> 255 then Some (r\<lparr>title := s\<rparr>) else None
                      | _ \<Rightarrow> None)
      else if fst kv = ''description'' then
        (case snd kv of PNone \<Rightarrow> Some (r\<lparr>description := None\<rparr>)
                      | PStr s \<Rightarrow> Some (r\<lparr>description := Some s\<rparr>)
                      | _ \<Rightarrow> None)
      else if fst kv = ''status'' then
        (case snd kv of PStr s \<Rightarrow> if s \<in> set TaskStatus then Some (r\<lparr>status := s\<rparr>) else None
                      | _ \<Rightarrow> None)
      else if fst kv = ''due_date'' then
        (case snd kv of PNone \<Rightarrow> Some (r\<lparr>due_date := None\<rparr>)
                      | PDate d \<Rightarrow> Some (r\<lparr>due_date := Some d\<rparr>)
                      | _ \<Rightarrow> None)
      else None)"

text \<open>Modelled from the spec: the \<open>SET\<close> clause of an update, applied to one row from left
  to right; the engine that runs it is not among the sources.\<close>

fun set_columns :: "(string \<times> pyval) list \<Rightarrow> Task \<Rightarrow> Task option" where
  "set_columns [] r = Some r"
| "set_columns (kv # kvs) r =
     (case set_column kv r of None \<Rightarrow> None | Some r' \<Rightarrow> set_columns kvs r')"

text \<open>Modelled from the spec: the datastore's update of the rows that match the key.
  \<open>updated_at\<close> is server-managed and refreshed on every successful update.\<close>

fun update_rows :: "(string \<times> pyval) list \<Rightarrow> int \<Rightarrow> datetime \<Rightarrow> Task list \<Rightarrow> Task list option" where
  "update_rows kvs tid now [] = Some []"
| "update_rows kvs tid now (r # rs) =
     (if task_id r = tid then
        (case set_columns kvs r of None \<Rightarrow> None
         | Some r' \<Rightarrow> map_option ((#) (r'\<lparr>updated_at := now\<rparr>)) (update_rows kvs tid now rs))
      else map_option ((#) r) (update_rows kvs tid now rs))"

text \<open>Modelled from the spec: the row the datastore stores for an insert. It assigns
  \<open>task_id\<close>, \<open>created_at\<close> and \<open>updated_at\<close>, the two timestamps equal at creation.\<close>

definition new_row :: "TaskBase \<Rightarrow> int \<Rightarrow> datetime \<Rightarrow> Task" where
  "new_row t i now =
     \<lparr>TaskBase.title = TaskBase.title t, description = TaskBase.description t,
      status = TaskBase.status t, due_date = TaskBase.due_date t,
      task_id = i, created_at = now, updated_at = now\<rparr>"

text \<open>Modelled from the spec: \<open>ORDER BY created_at DESC\<close> as the datastore evaluates it,
  most recently created first. The sort is stable, so rows of equal \<open>created_at\<close> come in
  the reverse of the order in which they are handed to it.\<close>

definition order_by_created_at_desc :: "Task list \<Rightarrow> Task list" where
  "order_by_created_at_desc rs = rev (sort_key created_at rs)"

text \<open>Modelled from the spec: the order among rows of equal \<open>created_at\<close>. The query names
  no second sort key and the spec fixes none, so the datastore may return such rows in any
  order, and in another order on the next call. A listing sorts the rows as they are
  arranged at that moment: the head of \<open>tie_orders\<close> when it is a rearrangement of the
  table, the table itself otherwise. Every ordered rearrangement of the table can be
  reached this way.\<close>

definition arrangement :: "db \<Rightarrow> Task list" where
  "arrangement d =
     (case tie_orders d of
        [] \<Rightarrow> rows d
      | a # _ \<Rightarrow> if mset a = mset (rows d) then a else rows d)"

text \<open>Modelled from the spec: \<open>WHERE task_id = %s\<close>, the rows of a key, in table order.\<close>

definition matching :: "int \<Rightarrow> Task list \<Rightarrow> Task list" where
  "matching tid rs = filter (\<lambda>r. task_id r = tid) rs"

text \<open>Modelled from the spec: the datastore running one statement that reached it, with
  autocommit: the new table is durable when the call returns. \<open>None\<close> is a raised error.
  A negative \<open>LIMIT\<close> or \<open>OFFSET\<close> is refused.\<close>

fun run :: "stmt \<Rightarrow> db \<Rightarrow> cursor option \<times> db" where
  "run (INSERT t) d =
     (if length (TaskBase.title t) \<le> 255 \<and> TaskBase.status t \<in> set TaskStatus then
        (Some \<lparr>rowcount = 1, lastrowid = next_id d, fetched = []\<rparr>,
         d\<lparr>rows := rows d @ [new_row t (next_id d) (clock d)], next_id := next_id d + 1\<rparr>)
      else (None, d))"
| "run (SELECT_ONE tid) d =
     (Some \<lparr>rowcount = int (length (matching tid (rows d))), lastrowid = 0,
            fetched = matching tid (rows d)\<rparr>, d)"
| "run (SELECT_PAGE lim off) d =
     (if lim < 0 \<or> off < 0 then (None, d)
      else (let page = take (nat lim) (drop (nat off) (order_by_created_at_desc (arrangement d)))
            in (Some \<lparr>rowcount = int (length page), lastrowid = 0, fetched = page\<rparr>,
                d\<lparr>tie_orders := tl (tie_orders d)\<rparr>)))"
| "run (UPDATE kvs tid) d =
     (case update_rows kvs tid (clock d) (rows d) of
        None \<Rightarrow> (None, d)
      | Some rs \<Rightarrow> (Some \<lparr>rowcount = int (length (matching tid (rows d))), lastrowid = 0,
                          fetched = []\<rparr>, d\<lparr>rows := rs\<rparr>))"
| "run (DELETE tid) d =
     (Some \<lparr>rowcount = int (length (matching tid (rows d))), lastrowid = 0, fetched = []\<rparr>,
      d\<lparr>rows := filter (\<lambda>r. task_id r \<noteq> tid) (rows d)\<rparr>)"

text \<open>Modelled from the spec: \<open>cursor.execute\<close>. The statement is recorded as sent, the
  head of the fault schedule is consumed, and the call either raises or runs the statement.\<close>

definition execute :: "db \<Rightarrow> stmt \<Rightarrow> cursor option \<times> db" where
  "execute d q =
     (let d' = d\<lparr>faults := tl (faults d), trace := trace d @ [q]\<rparr>
      in if faults d \<noteq> [] \<and> hd (faults d) then (None, d') else run q d')"

text \<open>\<open>cursor.fetchone()\<close>: the first row of the result, or \<open>None\<close>.\<close>

definition fetchone :: "cursor \<Rightarrow> Task option" where
  "fetchone c = (case fetched c of [] \<Rightarrow> None | r # _ \<Rightarrow> Some r)"

definition fetchall :: "cursor \<Rightarrow> Task list" where
  "fetchall c = fetched c"

subsection \<open>app/crud.py\<close>

definition get_task :: "db \<Rightarrow> int \<Rightarrow> Task option \<times> db" where
  "get_task d tid =
     (case execute d (SELECT_ONE tid) of
        (None, d') \<Rightarrow> (None, d')
      | (Some c, d') \<Rightarrow>
          (case fetchone c of
             None \<Rightarrow> (None, d')
           | Some result \<Rightarrow> (Task_validate result, d')))"

text \<open>The loop \<open>for row in results: tasks.append(Task(**row))\<close>; a row that does not
  validate raises.\<close>

fun append_tasks :: "Task list \<Rightarrow> Task list \<Rightarrow> Task list option" where
  "append_tasks tasks [] = Some tasks"
| "append_tasks tasks (r # results) =
     (case Task_validate r of None \<Rightarrow> None | Some t \<Rightarrow> append_tasks (tasks @ [t]) results)"

definition get_tasks :: "db \<Rightarrow> int \<Rightarrow> int \<Rightarrow> Task list \<times> db" where
  "get_tasks d skip limit =
     (case execute d (SELECT_PAGE limit skip) of
        (None, d') \<Rightarrow> ([], d')
      | (Some c, d') \<Rightarrow>
          (case append_tasks [] (fetchall c) of
             None \<Rightarrow> ([], d')
           | Some tasks \<Rightarrow> (tasks, d')))"

definition create_task :: "db \<Rightarrow> TaskCreate \<Rightarrow> Task option \<times> db" where
  "create_task d task =
     (case execute d (INSERT task) of
        (None, d') \<Rightarrow> (None, d')
      | (Some c, d') \<Rightarrow> get_task d' (lastrowid c))"

definition update_task :: "db \<Rightarrow> int \<Rightarrow> TaskUpdate \<Rightarrow> Task option \<times> db" where
  "update_task d tid task_update =
     (case get_task d tid of
        (None, d1) \<Rightarrow> (None, d1)
      | (Some existing_task, d1) \<Rightarrow>
          (let update_data = model_dump_exclude_unset task_update
           in if update_data = [] then (Some existing_task, d1)
              else (case execute d1 (UPDATE update_data tid) of
                      (None, d2) \<Rightarrow> (None, d2)
                    | (Some c, d2) \<Rightarrow>
                        if rowcount c = 0 then get_task d2 tid else get_task d2 tid)))"

definition delete_task :: "db \<Rightarrow> int \<Rightarrow> bool \<times> db" where
  "delete_task d tid =
     (case execute d (DELETE tid) of
        (None, d') \<Rightarrow> (False, d')
      | (Some c, d') \<Rightarrow> (if rowcount c > 0 then True else False, d'))"

subsection \<open>app/main.py\<close>

text \<open>
  A response is a status code and a body. FastAPI validates the body and the query
  parameters against the handler's signature before the handler runs; a refusal is a
  422 response and the handler's body is not entered.
\<close>

datatype body =
    TaskBody Task
  | TaskList "Task list"
  | Detail string
  | RequestValidationError
  | NoContent

type_synonym response = "nat \<times> body"

definition create_new_task :: "db \<Rightarrow> payload \<Rightarrow> response \<times> db" where
  "create_new_task d p =
     (case TaskCreate_validate p of
        None \<Rightarrow> ((422, RequestValidationError), d)
      | Some task \<Rightarrow>
          (case create_task d task of
             (None, d') \<Rightarrow> ((500, Detail ''Could not create task''), d')
           | (Some created_task, d') \<Rightarrow> ((201, TaskBody created_task), d')))"

definition read_tasks :: "db \<Rightarrow> int \<Rightarrow> int \<Rightarrow> response \<times> db" where
  "read_tasks d skip limit =
     (if skip \<ge> 0 \<and> limit \<ge> 1 \<and> limit \<le> 200 then
        (case get_tasks d skip limit of (tasks, d') \<Rightarrow> ((200, TaskList tasks), d'))
      else ((422, RequestValidationError), d))"

definition read_task :: "db \<Rightarrow> int \<Rightarrow> response \<times> db" where
  "read_task d tid =
     (case get_task d tid of
        (None, d') \<Rightarrow> ((404, Detail ''Task not found''), d')
      | (Some db_task, d') \<Rightarrow> ((200, TaskBody db_task), d'))"

definition update_existing_task :: "db \<Rightarrow> int \<Rightarrow> payload \<Rightarrow> response \<times> db" where
  "update_existing_task d tid p =
     (case TaskUpdate_validate p of
        None \<Rightarrow> ((422, RequestValidationError), d)
      | Some task \<Rightarrow>
          (case update_task d tid task of
             (Some updated_task, d1) \<Rightarrow> ((200, TaskBody updated_task), d1)
           | (None, d1) \<Rightarrow>
               (case get_task d1 tid of
                  (None, d2) \<Rightarrow> ((404, Detail ''Task not found''), d2)
                | (Some existing, d2) \<Rightarrow> ((500, Detail ''Could not update task''), d2))))"

definition delete_existing_task :: "db \<Rightarrow> int \<Rightarrow> response \<times> db" where
  "delete_existing_task d tid =
     (case delete_task d tid of
        (False, d') \<Rightarrow> ((404, Detail ''Task not found''), d')
      | (True, d') \<Rightarrow> ((204, NoContent), d'))"

subsection \<open>Notions used to state the properties\<close>

text \<open>The stored record of a key: the first row that matches it, if any.\<close>

definition stored :: "db \<Rightarrow> int \<Rightarrow> Task option" where
  "stored d tid = (case matching tid (rows d) of [] \<Rightarrow> None | r # _ \<Rightarrow> Some r)"

text \<open>The table is keyed by \<open>task_id\<close>: no two rows share one.\<close>

definition keyed :: "db \<Rightarrow> bool" where
  "keyed d = distinct (map task_id (rows d))"

text \<open>None of the next \<open>n\<close> storage calls raises.\<close>

definition calls_succeed :: "nat \<Rightarrow> db \<Rightarrow> bool" where
  "calls_succeed n d = (True \<notin> set (take n (faults d)))"

text \<open>The connection after one call that changed no row: one fault entry consumed, the
  statement recorded.\<close>

definition after_call :: "stmt \<Rightarrow> db \<Rightarrow> db" where
  "after_call q d = d\<lparr>faults := tl (faults d), trace := trace d @ [q]\<rparr>"

subsection \<open>Example data\<close>

definition report_task :: Task where
  "report_task =
     \<lparr>TaskBase.title = ''write report'', description = None, status = ''pending'',
      due_date = Some (2025, 6, 30), task_id = 1, created_at = 10, updated_at = 10\<rparr>"

definition one_task_db :: db where
  "one_task_db =
     \<lparr>rows = [report_task], next_id = 2, clock = 20, faults = [], tie_orders = [],
      trace = []\<rparr>"

definition no_fields :: TaskUpdate where
  "no_fields =
     \<lparr>TaskUpdate.title = None, description = None, status = None, due_date = None,
      model_fields_set = {}\<rparr>"

definition call_note :: TaskBase where
  "call_note =
     \<lparr>TaskBase.title = ''call supplier'', description = Some ''before noon'',
      status = ''pending'', due_date = None\<rparr>"

text \<open>The fields of a payload other than \<open>title\<close> pass their validators.\<close>

definition TaskCreate_others_valid :: "payload \<Rightarrow> bool" where
  "TaskCreate_others_valid p =
     (with_default None (optional_of any_str) (p ''description'') \<noteq> None \<and>
      with_default ''pending'' status_literal (p ''status'') \<noteq> None \<and>
      with_default None (optional_of date_value) (p ''due_date'') \<noteq> None)"

definition TaskUpdate_others_valid :: "payload \<Rightarrow> bool" where
  "TaskUpdate_others_valid p =
     (with_default None (optional_of any_str) (p ''description'') \<noteq> None \<and>
      with_default None (optional_of status_literal) (p ''status'') \<noteq> None \<and>
      with_default None (optional_of date_value) (p ''due_date'') \<noteq> None)"

text \<open>A body with a title and nothing else; the title made of \<open>n\<close> letters.\<close>

definition title_only :: "string \<Rightarrow> payload" where
  "title_only s = [''title'' \<mapsto> PStr s]"

definition letters :: "nat \<Rightarrow> string" where
  "letters n = replicate n (CHR ''a'')"

text \<open>What a partial update leaves alone: the key, the creation time and every field the
  payload did not supply.\<close>

definition unsupplied_unchanged :: "TaskUpdate \<Rightarrow> Task \<Rightarrow> Task \<Rightarrow> bool" where
  "unsupplied_unchanged u r r' =
     (task_id r' = task_id r \<and> created_at r' = created_at r \<and>
      (''title'' \<notin> model_fields_set u \<longrightarrow> title r' = title r) \<and>
      (''description'' \<notin> model_fields_set u \<longrightarrow> description r' = description r) \<and>
      (''status'' \<notin> model_fields_set u \<longrightarrow> status r' = status r) \<and>
      (''due_date'' \<notin> model_fields_set u \<longrightarrow> due_date r' = due_date r))"

text \<open>What a partial update sets: every supplied field holds the supplied value.\<close>

definition supplied_applied :: "TaskUpdate \<Rightarrow> Task \<Rightarrow> bool" where
  "supplied_applied u r' =
     ((''title'' \<in> model_fields_set u \<longrightarrow> TaskUpdate.title u = Some (title r')) \<and>
      (''description'' \<in> model_fields_set u \<longrightarrow> TaskUpdate.description u = description r') \<and>
      (''status'' \<in> model_fields_set u \<longrightarrow> TaskUpdate.status u = Some (status r')) \<and>
      (''due_date'' \<in> model_fields_set u \<longrightarrow> TaskUpdate.due_date u = due_date r'))"

text \<open>The payload supplies no explicit \<open>null\<close> for \<open>title\<close> or \<open>status\<close>, the two
  columns the table requires.\<close>

definition no_null_for_required :: "TaskUpdate \<Rightarrow> bool" where
  "no_null_for_required u =
     ((''title'' \<in> model_fields_set u \<longrightarrow> TaskUpdate.title u \<noteq> None) \<and>
      (''status'' \<in> model_fields_set u \<longrightarrow> TaskUpdate.status u \<noteq> None))"

text \<open>Every stored row passes \<open>Task(**row)\<close>.\<close>

definition rows_valid :: "db \<Rightarrow> bool" where
  "rows_valid d = list_all (\<lambda>r. Task_validate r = Some r) (rows d)"

text \<open>Update payloads: \<open>{"title": null}\<close> and \<open>{"status": "completed"}\<close>, with the
  models they validate to.\<close>

definition null_title :: payload where
  "null_title = [''title'' \<mapsto> PNone]"

definition null_title_update :: TaskUpdate where
  "null_title_update =
     \<lparr>TaskUpdate.title = None, description = None, status = None, due_date = None,
      model_fields_set = {''title''}\<rparr>"

definition status_completed :: payload where
  "status_completed = [''status'' \<mapsto> PStr ''completed'']"

definition status_completed_update :: TaskUpdate where
  "status_completed_update =
     \<lparr>TaskUpdate.title = None, description = None, status = Some ''completed'', due_date = None,
      model_fields_set = {''status''}\<rparr>"

definition completed_report :: Task where
  "completed_report = report_task\<lparr>status := ''completed'', updated_at := 20\<rparr>"

text \<open>Four tasks created at different times.\<close>

definition plain_task :: "int \<Rightarrow> datetime \<Rightarrow> Task" where
  "plain_task i t =
     \<lparr>TaskBase.title = ''task'', description = None, status = ''pending'', due_date = None,
      task_id = i, created_at = t, updated_at = t\<rparr>"

definition four_task_db :: db where
  "four_task_db =
     \<lparr>rows = [plain_task 1 10, plain_task 2 30, plain_task 3 20, plain_task 4 40],
      next_id = 5, clock = 50, faults = [], tie_orders = [], trace = []\<rparr>"

text \<open>Four tasks, two of them created at the same time, and a datastore that holds the
  two in one order at the first listing and in the other order at the second.\<close>

definition tied_task_db :: db where
  "tied_task_db =
     \<lparr>rows = [plain_task 1 10, plain_task 2 20, plain_task 3 20, plain_task 4 30],
      next_id = 5, clock = 50, faults = [],
      tie_orders = [[plain_task 1 10, plain_task 2 20, plain_task 3 20, plain_task 4 30],
                    [plain_task 1 10, plain_task 3 20, plain_task 2 20, plain_task 4 30]],
      trace = []\<rparr>"

section \<open>Properties\<close>

subsection \<open>Storage calls\<close>

lemma execute_ok:
  "calls_succeed (Suc n) d \<Longrightarrow> execute d q = run q (after_call q d)"
  by (cases "faults d") (auto simp: execute_def calls_succeed_def after_call_def Let_def)

lemma execute_fault:
  "faults d = True # fs \<Longrightarrow> execute d q = (None, after_call q d)"
  by (simp add: execute_def after_call_def Let_def)

lemma calls_succeed_after:
  "calls_succeed (Suc n) d \<Longrightarrow> calls_succeed n (after_call q d)"
  by (cases "faults d") (auto simp: calls_succeed_def after_call_def)

lemma rows_after_call [simp]: "rows (after_call q d) = rows d"
  by (simp add: after_call_def)

lemma trace_after_call [simp]: "trace (after_call q d) = trace d @ [q]"
  by (simp add: after_call_def)

lemma clock_after_call [simp]: "clock (after_call q d) = clock d"
  by (simp add: after_call_def)

lemma stored_after_call [simp]: "stored (after_call q d) tid = stored d tid"
  by (simp add: stored_def)

subsection \<open>Reading one task\<close>

lemma get_task_missing:
  "matching tid (rows d) = [] \<Longrightarrow> get_task d tid = (None, after_call (SELECT_ONE tid) d)"
  by (auto simp: get_task_def execute_def after_call_def Let_def fetchone_def)

lemma get_task_after: "snd (get_task d tid) = after_call (SELECT_ONE tid) d"
  by (auto simp: get_task_def execute_def after_call_def Let_def fetchone_def
           split: list.splits option.splits)

lemma get_task_found:
  "calls_succeed (Suc n) d \<Longrightarrow> stored d tid = Some r \<Longrightarrow>
   get_task d tid = (Task_validate r, after_call (SELECT_ONE tid) d)"
  by (auto simp: get_task_def execute_ok stored_def after_call_def fetchone_def
           split: list.splits)

lemma get_task_fault:
  "faults d = True # fs \<Longrightarrow> get_task d tid = (None, after_call (SELECT_ONE tid) d)"
  by (simp add: get_task_def execute_fault)

lemma dump_empty: "model_fields_set u = {} \<Longrightarrow> model_dump_exclude_unset u = []"
  by (simp add: model_dump_exclude_unset_def)

lemma stored_one_task_db: "stored one_task_db 1 = Some report_task"
  by (simp add: stored_def one_task_db_def matching_def report_task_def)

lemma report_task_valid: "Task_validate report_task = Some report_task"
  by (simp add: Task_validate_def report_task_def TaskStatus_def)

subsection \<open>No-op updates, absent tasks and storage failures\<close>

text \<open>
  C2. An update whose payload supplies no field is a no-op. Whatever the storage does,
  the only statement sent is the existence check, so no write is performed and the table
  (with every \<open>updated_at\<close>) is as before; when the task exists and the check does not
  fail, the result is the existing record, not an error.
\<close>

theorem update_task_no_fields_noop:
  assumes "model_fields_set u = {}"
  shows "snd (update_task d tid u) = after_call (SELECT_ONE tid) d \<and>
         rows (snd (update_task d tid u)) = rows d \<and>
         trace (snd (update_task d tid u)) = trace d @ [SELECT_ONE tid] \<and>
         (stored d tid = Some r \<and> Task_validate r = Some r \<and> calls_succeed 1 d \<longrightarrow>
            fst (update_task d tid u) = Some r)"
proof -
  have g: "snd (get_task d tid) = after_call (SELECT_ONE tid) d"
    by (rule get_task_after)
  have a: "snd (update_task d tid u) = after_call (SELECT_ONE tid) d"
    using g by (cases "get_task d tid")
      (auto simp: update_task_def dump_empty[OF assms] split: option.splits)
  have b: "fst (update_task d tid u) = Some r"
    if "stored d tid = Some r" "Task_validate r = Some r" "calls_succeed 1 d"
    using that get_task_found[of 0 d tid r]
    by (simp add: update_task_def dump_empty[OF assms])
  show ?thesis using a b by simp
qed

theorem update_task_no_fields_noop_witness:
  "model_fields_set no_fields = {} \<and> stored one_task_db 1 = Some report_task \<and>
   Task_validate report_task = Some report_task \<and> calls_succeed 1 one_task_db \<and>
   fst (update_task one_task_db 1 no_fields) = Some report_task \<and>
   rows (snd (update_task one_task_db 1 no_fields)) = [report_task] \<and>
   trace (snd (update_task one_task_db 1 no_fields)) = [SELECT_ONE 1]"
proof -
  have h: "model_fields_set no_fields = {}" by (simp add: no_fields_def)
  have c: "calls_succeed 1 one_task_db" by (simp add: calls_succeed_def one_task_db_def)
  have r: "rows one_task_db = [report_task]" "trace one_task_db = []"
    by (simp_all add: one_task_db_def)
  show ?thesis
    using update_task_no_fields_noop[OF h, of one_task_db 1 report_task]
      h c r stored_one_task_db report_task_valid by simp
qed

text \<open>
  C3. A key with no stored record (never created, or deleted): reading it gives no task;
  updating it gives no task after the existence check alone, with no write sent; deleting
  it reports false and removes nothing. This holds whether or not a storage call fails.
\<close>

theorem absent_task_not_found:
  assumes "stored d tid = None"
  shows "get_task d tid = (None, after_call (SELECT_ONE tid) d) \<and>
         update_task d tid u = (None, after_call (SELECT_ONE tid) d) \<and>
         trace (snd (update_task d tid u)) = trace d @ [SELECT_ONE tid] \<and>
         fst (delete_task d tid) = False \<and>
         rows (snd (delete_task d tid)) = rows d"
proof -
  have m: "matching tid (rows d) = []"
    using assms by (simp add: stored_def split: list.splits)
  have g: "get_task d tid = (None, after_call (SELECT_ONE tid) d)"
    by (rule get_task_missing[OF m])
  have u: "update_task d tid u = (None, after_call (SELECT_ONE tid) d)"
    by (simp add: update_task_def g)
  have k: "filter (\<lambda>r. task_id r \<noteq> tid) (rows d) = rows d"
    using m by (auto simp: matching_def filter_empty_conv filter_id_conv)
  have e: "fst (delete_task d tid) = False \<and> rows (snd (delete_task d tid)) = rows d"
    using m k by (simp add: delete_task_def execute_def Let_def)
  show ?thesis using g u e by simp
qed

theorem absent_task_not_found_witness:
  "stored one_task_db 7 = None \<and>
   fst (get_task one_task_db 7) = None \<and>
   fst (update_task one_task_db 7 no_fields) = None \<and>
   trace (snd (update_task one_task_db 7 no_fields)) = [SELECT_ONE 7] \<and>
   fst (delete_task one_task_db 7) = False \<and>
   rows (snd (delete_task one_task_db 7)) = [report_task]"
proof -
  have h: "stored one_task_db 7 = None"
    by (simp add: stored_def one_task_db_def matching_def report_task_def)
  have r: "rows one_task_db = [report_task]" "trace one_task_db = []"
    by (simp_all add: one_task_db_def)
  show ?thesis
    using absent_task_not_found[OF h, of no_fields] h r by simp
qed

text \<open>
  C7. When the storage call raises, reading one task gives no task, the same result as
  for a key that is not stored, and the handler answers 404 in both cases; listing gives
  the empty sequence, and the handler answers 200 with an empty list.
\<close>

theorem storage_failure_reads_as_absence:
  assumes "faults d = True # fs"
  shows "fst (get_task d tid) = None \<and>
         fst (read_task d tid) = (404, Detail ''Task not found'') \<and>
         (stored d' tid = None \<longrightarrow>
            fst (get_task d' tid) = fst (get_task d tid) \<and>
            fst (read_task d' tid) = fst (read_task d tid)) \<and>
         fst (get_tasks d skip limit) = [] \<and>
         (0 \<le> skip \<and> 1 \<le> limit \<and> limit \<le> 200 \<longrightarrow>
            fst (read_tasks d skip limit) = (200, TaskList []))"
proof -
  have g: "get_task d tid = (None, after_call (SELECT_ONE tid) d)"
    by (rule get_task_fault[OF assms])
  have a: "get_task d' tid = (None, after_call (SELECT_ONE tid) d')" if "stored d' tid = None"
    using that by (intro get_task_missing) (simp add: stored_def split: list.splits)
  have l: "get_tasks d skip limit = ([], after_call (SELECT_PAGE limit skip) d)"
    by (simp add: get_tasks_def execute_fault[OF assms])
  show ?thesis using g a l by (simp add: read_task_def read_tasks_def)
qed

theorem storage_failure_reads_as_absence_witness:
  "faults (one_task_db\<lparr>faults := [True]\<rparr>) = True # [] \<and>
   stored (one_task_db\<lparr>faults := [True]\<rparr>) 1 = Some report_task \<and>
   stored one_task_db 7 = None \<and>
   fst (get_task (one_task_db\<lparr>faults := [True]\<rparr>) 1) = None \<and>
   fst (get_task one_task_db 7) = None \<and>
   fst (read_task (one_task_db\<lparr>faults := [True]\<rparr>) 1) = (404, Detail ''Task not found'') \<and>
   fst (read_task one_task_db 7) = (404, Detail ''Task not found'') \<and>
   fst (get_tasks (one_task_db\<lparr>faults := [True]\<rparr>) 0 100) = [] \<and>
   fst (read_tasks (one_task_db\<lparr>faults := [True]\<rparr>) 0 100) = (200, TaskList [])"
proof -
  have h: "faults (one_task_db\<lparr>faults := [True]\<rparr>) = True # []" by simp
  have s: "stored (one_task_db\<lparr>faults := [True]\<rparr>) 1 = Some report_task"
    using stored_one_task_db by (simp add: stored_def)
  have n: "stored one_task_db 7 = None"
    by (simp add: stored_def one_task_db_def matching_def report_task_def)
  show ?thesis
    using storage_failure_reads_as_absence[OF h, of 1 one_task_db 0 100]
      storage_failure_reads_as_absence[OF h, of 7 one_task_db 0 100] h s n
    by simp
qed

text \<open>
  C10. When the insert succeeds and the re-read that follows it raises, \<open>create_task\<close>
  returns no task, and the inserted row is in the table all the same: the statement was
  committed when it ran and nothing takes it back.
\<close>

theorem create_task_failure_keeps_row:
  assumes "faults d = False # True # fs"
      and "length (TaskBase.title task) \<le> 255" and "TaskBase.status task \<in> set TaskStatus"
  shows "fst (create_task d task) = None \<and>
         rows (snd (create_task d task)) = rows d @ [new_row task (next_id d) (clock d)] \<and>
         trace (snd (create_task d task)) = trace d @ [INSERT task, SELECT_ONE (next_id d)]"
  using assms
  by (simp add: create_task_def execute_def Let_def get_task_def)

theorem create_task_failure_keeps_row_witness:
  "faults (one_task_db\<lparr>faults := [False, True]\<rparr>) = False # True # [] \<and>
   length (TaskBase.title call_note) \<le> 255 \<and> TaskBase.status call_note \<in> set TaskStatus \<and>
   fst (create_task (one_task_db\<lparr>faults := [False, True]\<rparr>) call_note) = None \<and>
   rows (snd (create_task (one_task_db\<lparr>faults := [False, True]\<rparr>) call_note)) =
     [report_task, new_row call_note 2 20] \<and>
   fst (create_new_task (one_task_db\<lparr>faults := [False, True]\<rparr>)
          [''title'' \<mapsto> PStr ''call supplier'', ''description'' \<mapsto> PStr ''before noon''])
     = (500, Detail ''Could not create task'')"
proof -
  have h: "faults (one_task_db\<lparr>faults := [False, True]\<rparr>) = False # True # []" by simp
  have t: "length (TaskBase.title call_note) \<le> 255" by (simp add: call_note_def)
  have s: "TaskBase.status call_note \<in> set TaskStatus"
    by (simp add: call_note_def TaskStatus_def)
  have v: "TaskCreate_validate
             [''title'' \<mapsto> PStr ''call supplier'', ''description'' \<mapsto> PStr ''before noon'']
           = Some call_note"
    by (simp add: TaskCreate_validate_def required_def with_default_def constrained_str_def
          optional_of_def any_str_def call_note_def)
  have r: "rows one_task_db = [report_task]" "next_id one_task_db = 2" "clock one_task_db = 20"
    by (simp_all add: one_task_db_def)
  have c: "fst (create_task (one_task_db\<lparr>faults := [False, True]\<rparr>) call_note) = None \<and>
     rows (snd (create_task (one_task_db\<lparr>faults := [False, True]\<rparr>) call_note)) =
     [report_task, new_row call_note 2 20]"
    using create_task_failure_keeps_row[OF h t s] r by simp
  show ?thesis
    using c h t s v
    by (cases "create_task (one_task_db\<lparr>faults := [False, True]\<rparr>) call_note")
       (simp add: create_new_task_def)
qed

subsection \<open>Deleting\<close>

lemma matching_keyed: "distinct (map task_id rs) \<Longrightarrow> length (matching tid rs) \<le> 1"
proof (induction rs)
  case Nil
  show ?case by (simp add: matching_def)
next
  case (Cons a rs)
  have "matching tid rs = []" if "task_id a = tid"
    using Cons.prems that by (auto simp: matching_def filter_empty_conv image_iff)
  then show ?case using Cons by (auto simp: matching_def)
qed

lemma length_delete:
  "length (filter (\<lambda>r. task_id r \<noteq> tid) rs) + length (matching tid rs) = length rs"
  using sum_length_filter_compl[of "\<lambda>r. task_id r \<noteq> tid" rs] by (simp add: matching_def)

lemma delete_task_ok:
  "calls_succeed 1 d \<Longrightarrow>
   delete_task d tid =
     (stored d tid \<noteq> None,
      (after_call (DELETE tid) d)\<lparr>rows := filter (\<lambda>r. task_id r \<noteq> tid) (rows d)\<rparr>)"
  using execute_ok[of 0 d "DELETE tid"]
  by (auto simp: delete_task_def stored_def split: list.splits)

lemma delete_task_fault:
  "faults d = True # fs \<Longrightarrow> delete_task d tid = (False, after_call (DELETE tid) d)"
  by (simp add: delete_task_def execute_fault)

text \<open>
  C4, as the code has it. The handler answers 204 when \<open>delete_task\<close> returns true and
  404 when it returns false, and nothing else. When the storage call succeeds,
  \<open>delete_task\<close> returns true exactly when a row matched, the matching rows are removed,
  and in a keyed table that is exactly one row; zero rows removed gives false. When the
  storage call raises, \<open>delete_task\<close> returns false as well: the handler answers 404, the
  answer for a task that is not there.
\<close>

theorem delete_task_outcomes:
  "fst (delete_existing_task d tid) =
     (if fst (delete_task d tid) then (204, NoContent) else (404, Detail ''Task not found'')) \<and>
   (calls_succeed 1 d \<longrightarrow>
      fst (delete_task d tid) = (stored d tid \<noteq> None) \<and>
      rows (snd (delete_task d tid)) = filter (\<lambda>r. task_id r \<noteq> tid) (rows d) \<and>
      stored (snd (delete_task d tid)) tid = None \<and>
      (keyed d \<longrightarrow>
         fst (delete_task d tid) =
           (length (rows (snd (delete_task d tid))) + 1 = length (rows d)))) \<and>
   (faults d \<noteq> [] \<and> hd (faults d) \<longrightarrow> fst (delete_task d tid) = False)"
proof -
  have h: "fst (delete_existing_task d tid) =
     (if fst (delete_task d tid) then (204, NoContent) else (404, Detail ''Task not found''))"
    by (cases "delete_task d tid") (auto simp: delete_existing_task_def)
  have f: "fst (delete_task d tid) = False"
    if "faults d \<noteq> [] \<and> hd (faults d)"
    using that delete_task_fault[of d "tl (faults d)" tid] by (cases "faults d") auto
  have ok: "fst (delete_task d tid) = (stored d tid \<noteq> None) \<and>
      rows (snd (delete_task d tid)) = filter (\<lambda>r. task_id r \<noteq> tid) (rows d) \<and>
      stored (snd (delete_task d tid)) tid = None" if "calls_succeed 1 d"
    using delete_task_ok[OF that, of tid]
    by (simp add: stored_def matching_def filter_empty_conv split: list.splits)
  have k: "fst (delete_task d tid) =
             (length (rows (snd (delete_task d tid))) + 1 = length (rows d))"
    if c: "calls_succeed 1 d" and "keyed d"
  proof -
    have "length (matching tid (rows d)) \<le> 1"
      using that matching_keyed[of "rows d" tid] by (simp add: keyed_def)
    moreover have "(stored d tid \<noteq> None) = (length (matching tid (rows d)) \<noteq> 0)"
      by (simp add: stored_def split: list.splits)
    ultimately have "(stored d tid \<noteq> None) = (length (matching tid (rows d)) = 1)"
      by linarith
    then show ?thesis
      using ok[OF c] length_delete[of tid "rows d"] by auto
  qed
  show ?thesis using h f ok k by blast
qed

theorem delete_task_outcomes_witness:
  "calls_succeed 1 one_task_db \<and> keyed one_task_db \<and>
   fst (delete_task one_task_db 1) = True \<and>
   rows (snd (delete_task one_task_db 1)) = [] \<and>
   fst (delete_existing_task one_task_db 1) = (204, NoContent) \<and>
   fst (delete_task one_task_db 7) = False \<and>
   rows (snd (delete_task one_task_db 7)) = [report_task] \<and>
   fst (delete_existing_task one_task_db 7) = (404, Detail ''Task not found'') \<and>
   faults (one_task_db\<lparr>faults := [True]\<rparr>) \<noteq> [] \<and> hd (faults (one_task_db\<lparr>faults := [True]\<rparr>)) \<and>
   fst (delete_task (one_task_db\<lparr>faults := [True]\<rparr>) 1) = False \<and>
   fst (delete_existing_task (one_task_db\<lparr>faults := [True]\<rparr>) 1) = (404, Detail ''Task not found'')"
proof -
  have c: "calls_succeed 1 one_task_db" by (simp add: calls_succeed_def one_task_db_def)
  have k: "keyed one_task_db" by (simp add: keyed_def one_task_db_def)
  have n: "stored one_task_db 7 = None"
    by (simp add: stored_def one_task_db_def matching_def report_task_def)
  have r: "rows one_task_db = [report_task]" by (simp add: one_task_db_def)
  have i: "task_id report_task = 1" by (simp add: report_task_def)
  show ?thesis
    using delete_task_outcomes[of one_task_db 1] delete_task_outcomes[of one_task_db 7]
      delete_task_outcomes[of "one_task_db\<lparr>faults := [True]\<rparr>" 1]
      c k n r i stored_one_task_db
    by simp
qed

text \<open>
  The claim as stated fails: with the task stored and the storage call raising, the
  outcome of the delete is the outcome for a task that is not stored, at the repository
  and at the handler.
\<close>

theorem delete_failure_not_distinct:
  "stored (one_task_db\<lparr>faults := [True]\<rparr>) 1 = Some report_task \<and>
   stored one_task_db 7 = None \<and>
   fst (delete_task (one_task_db\<lparr>faults := [True]\<rparr>) 1) = fst (delete_task one_task_db 7) \<and>
   fst (delete_existing_task (one_task_db\<lparr>faults := [True]\<rparr>) 1) =
     (404, Detail ''Task not found'') \<and>
   fst (delete_existing_task one_task_db 7) = (404, Detail ''Task not found'')"
  by (simp add: stored_def one_task_db_def matching_def report_task_def
        delete_existing_task_def delete_task_def execute_def Let_def)

subsection \<open>Validation of a creation payload\<close>

lemma TaskCreate_validate_title:
  assumes "p ''title'' = Some (PStr s)"
  shows "TaskCreate_validate p \<noteq> None \<longleftrightarrow>
         1 \<le> length s \<and> length s \<le> 255 \<and> TaskCreate_others_valid p"
  using assms
  by (auto simp: TaskCreate_validate_def TaskCreate_others_valid_def required_def
        constrained_str_def Option.bind_eq_None_conv split: Option.bind_splits)

lemma TaskCreate_validate_title_eq:
  "TaskCreate_validate p = Some task \<Longrightarrow> p ''title'' = Some (PStr (TaskBase.title task))"
  by (auto simp: TaskCreate_validate_def required_def constrained_str_def
           split: Option.bind_splits option.splits pyval.splits if_splits)

lemma create_task_trace:
  "take (Suc (length (trace d))) (trace (snd (create_task d task))) = trace d @ [INSERT task]"
  by (cases "execute d (INSERT task)")
     (auto simp: create_task_def get_task_after execute_def Let_def
           split: option.splits if_splits)

text \<open>
  C6. A creation payload whose title has length 0 or 256 is refused by validation: the
  handler answers 422 and the connection is untouched, so no statement was sent. A title
  of length 1 or 255 is accepted (the other fields being valid): validation yields the
  task with that title and the handler goes on to send the insert.
\<close>

theorem create_title_length_boundary:
  assumes "p ''title'' = Some (PStr s)"
  shows "(length s = 0 \<or> length s = 256 \<longrightarrow>
            TaskCreate_validate p = None \<and>
            create_new_task d p = ((422, RequestValidationError), d)) \<and>
         ((length s = 1 \<or> length s = 255) \<and> TaskCreate_others_valid p \<longrightarrow>
            (\<exists>task. TaskCreate_validate p = Some task \<and> TaskBase.title task = s \<and>
               fst (fst (create_new_task d p)) \<noteq> 422 \<and>
               take (Suc (length (trace d))) (trace (snd (create_new_task d p)))
                 = trace d @ [INSERT task]))"
proof -
  have rej: "TaskCreate_validate p = None" if "length s = 0 \<or> length s = 256"
    using TaskCreate_validate_title[of p s] assms that by auto
  have acc: "\<exists>task. TaskCreate_validate p = Some task \<and> TaskBase.title task = s \<and>
               fst (fst (create_new_task d p)) \<noteq> 422 \<and>
               take (Suc (length (trace d))) (trace (snd (create_new_task d p)))
                 = trace d @ [INSERT task]"
    if ok: "(length s = 1 \<or> length s = 255) \<and> TaskCreate_others_valid p"
  proof -
    have "TaskCreate_validate p \<noteq> None"
      using TaskCreate_validate_title[of p s] assms ok by auto
    then obtain task where t: "TaskCreate_validate p = Some task"
      by blast
    have ti: "TaskBase.title task = s"
      using TaskCreate_validate_title_eq[of p task] t assms by simp
    have "fst (fst (create_new_task d p)) \<noteq> 422 \<and>
          snd (create_new_task d p) = snd (create_task d task)"
      by (cases "create_task d task") (auto simp: create_new_task_def t split: option.splits)
    then show ?thesis using t ti create_task_trace[of d task] by simp
  qed
  show ?thesis using rej acc by (simp add: create_new_task_def)
qed

theorem create_title_length_boundary_witness:
  "length (letters 0) = 0 \<and> length (letters 256) = 256 \<and>
   length (letters 1) = 1 \<and> length (letters 255) = 255 \<and>
   TaskCreate_others_valid (title_only (letters 1)) \<and>
   TaskCreate_others_valid (title_only (letters 255)) \<and>
   create_new_task one_task_db (title_only (letters 0))
     = ((422, RequestValidationError), one_task_db) \<and>
   create_new_task one_task_db (title_only (letters 256))
     = ((422, RequestValidationError), one_task_db) \<and>
   TaskCreate_validate (title_only (letters 1)) \<noteq> None \<and>
   TaskCreate_validate (title_only (letters 255)) \<noteq> None \<and>
   fst (fst (create_new_task one_task_db (title_only (letters 1)))) \<noteq> 422 \<and>
   fst (fst (create_new_task one_task_db (title_only (letters 255)))) \<noteq> 422"
proof -
  have t: "title_only s ''title'' = Some (PStr s)" for s
    by (simp add: title_only_def)
  have o: "TaskCreate_others_valid (title_only s)" for s
    by (simp add: TaskCreate_others_valid_def title_only_def with_default_def)
  have l: "length (letters n) = n" for n
    by (simp add: letters_def)
  show ?thesis
    using create_title_length_boundary[of "title_only (letters 0)" "letters 0" one_task_db]
      create_title_length_boundary[of "title_only (letters 256)" "letters 256" one_task_db]
      create_title_length_boundary[of "title_only (letters 1)" "letters 1" one_task_db]
      create_title_length_boundary[of "title_only (letters 255)" "letters 255" one_task_db]
      t o l
    by auto
qed

subsection \<open>Validation of an update payload\<close>

lemma TaskUpdate_validate_null_title:
  assumes "p ''title'' = Some PNone"
  shows "TaskUpdate_validate p \<noteq> None \<longleftrightarrow> TaskUpdate_others_valid p"
  using assms
  by (auto simp: TaskUpdate_validate_def TaskUpdate_others_valid_def with_default_def
        optional_of_def split: Option.bind_splits)

lemma TaskUpdate_validate_null_title_fields:
  assumes "p ''title'' = Some PNone" and "TaskUpdate_validate p = Some u"
  shows "TaskUpdate.title u = None \<and> ''title'' \<in> model_fields_set u"
  using assms
  by (auto simp: TaskUpdate_validate_def with_default_def optional_of_def TaskUpdate_fields_def
           split: Option.bind_splits)

lemma title_field_validated:
  "with_default None (optional_of (constrained_str lo hi)) x = Some (Some s) \<Longrightarrow>
   lo \<le> length s \<and> length s \<le> hi"
  by (cases x) (auto simp: with_default_def optional_of_def constrained_str_def
                     split: if_splits pyval.splits)

lemma status_field_validated:
  "with_default None (optional_of status_literal) x = Some (Some s) \<Longrightarrow> s \<in> set TaskStatus"
  by (cases x) (auto simp: with_default_def optional_of_def status_literal_def
                     split: if_splits pyval.splits)

lemma validated_update:
  assumes "TaskUpdate_validate p = Some u"
  shows "(TaskUpdate.title u = Some s \<longrightarrow> 1 \<le> length s \<and> length s \<le> 255) \<and>
         (TaskUpdate.status u = Some s \<longrightarrow> s \<in> set TaskStatus) \<and>
         model_fields_set u \<subseteq> set TaskUpdate_fields"
proof -
  from assms obtain t de st dd where
    t: "with_default None (optional_of (constrained_str 1 255)) (p ''title'') = Some t" and
    st: "with_default None (optional_of status_literal) (p ''status'') = Some st" and
    u: "u = \<lparr>TaskUpdate.title = t, description = de, status = st, due_date = dd,
            model_fields_set = set (filter (\<lambda>k. p k \<noteq> None) TaskUpdate_fields)\<rparr>"
    unfolding TaskUpdate_validate_def by (auto simp only: Option.bind_eq_Some_conv option.inject)
  have a: "TaskUpdate.title u = t" "TaskUpdate.status u = st"
    "model_fields_set u = set (filter (\<lambda>k. p k \<noteq> None) TaskUpdate_fields)"
    by (simp_all add: u)
  show ?thesis
    using title_field_validated[of 1 255 "p ''title''" s] status_field_validated[of "p ''status''" s]
      t st a by auto
qed

lemma validate_null_title: "TaskUpdate_validate null_title = Some null_title_update"
  by (simp add: TaskUpdate_validate_def null_title_def null_title_update_def with_default_def
        optional_of_def TaskUpdate_fields_def)

lemma validate_status_completed:
  "TaskUpdate_validate status_completed = Some status_completed_update"
  by (simp add: TaskUpdate_validate_def status_completed_def status_completed_update_def
        with_default_def optional_of_def TaskUpdate_fields_def status_literal_def TaskStatus_def)

subsection \<open>The fields an update sends\<close>

lemma dump_title:
  "''title'' \<in> model_fields_set u \<Longrightarrow>
   (''title'', str_or_none (TaskUpdate.title u)) \<in> set (model_dump_exclude_unset u)"
  by (simp add: model_dump_exclude_unset_def model_dump_def)

lemma dump_keys: "fst ` set (model_dump_exclude_unset u) = model_fields_set u \<inter> set TaskUpdate_fields"
  by (auto simp: model_dump_exclude_unset_def model_dump_def TaskUpdate_fields_def)

lemma dump_distinct: "distinct (map fst (model_dump_exclude_unset u))"
  by (simp add: model_dump_exclude_unset_def model_dump_def distinct_map_filter)

lemma dump_member:
  "kv \<in> set (model_dump_exclude_unset u) \<longleftrightarrow>
     fst kv \<in> model_fields_set u \<and> kv \<in> set (model_dump u)"
  by (auto simp: model_dump_exclude_unset_def)

lemma model_dump_cases:
  assumes "kv \<in> set (model_dump u)"
  obtains "kv = (''title'', str_or_none (TaskUpdate.title u))"
        | "kv = (''description'', str_or_none (TaskUpdate.description u))"
        | "kv = (''status'', str_or_none (TaskUpdate.status u))"
        | "kv = (''due_date'', date_or_none (TaskUpdate.due_date u))"
  using assms unfolding model_dump_def by (simp only: list.set insert_iff empty_iff) blast

lemma dump_nonempty:
  assumes "TaskUpdate_validate p = Some u" and "model_fields_set u \<noteq> {}"
  shows "model_dump_exclude_unset u \<noteq> []"
proof -
  have "fst ` set (model_dump_exclude_unset u) = model_fields_set u"
    using validated_update[OF assms(1)] dump_keys[of u] by auto
  then show ?thesis using assms(2) by auto
qed

lemma dump_null_title: "model_dump_exclude_unset null_title_update = [(''title'', PNone)]"
  by (simp add: model_dump_exclude_unset_def model_dump_def null_title_update_def str_or_none_def)

lemma dump_status_completed:
  "model_dump_exclude_unset status_completed_update = [(''status'', PStr ''completed'')]"
  by (simp add: model_dump_exclude_unset_def model_dump_def status_completed_update_def
        str_or_none_def date_or_none_def)

subsection \<open>Updating\<close>

lemma get_task_Some:
  "get_task d tid = (Some t, d1) \<Longrightarrow> stored d tid = Some t \<and> Task_validate t = Some t"
  by (auto simp: get_task_def execute_def Let_def fetchone_def stored_def Task_validate_def
           split: if_splits list.splits option.splits)

lemma calls_succeed_mono: "calls_succeed (Suc n) d \<Longrightarrow> calls_succeed n d"
  using set_take_subset_set_take[of n "Suc n" "faults d"] by (auto simp: calls_succeed_def)

lemma calls_succeed_rows [simp]: "calls_succeed n (d\<lparr>rows := rs\<rparr>) = calls_succeed n d"
  by (simp add: calls_succeed_def)

lemma update_task_trace:
  assumes "stored d tid = Some r" "Task_validate r = Some r" "calls_succeed 1 d"
      and "model_dump_exclude_unset u \<noteq> []"
  shows "take (length (trace d) + 2) (trace (snd (update_task d tid u)))
           = trace d @ [SELECT_ONE tid, UPDATE (model_dump_exclude_unset u) tid]"
proof -
  let ?d1 = "after_call (SELECT_ONE tid) d"
  let ?q = "UPDATE (model_dump_exclude_unset u) tid"
  have g: "get_task d tid = (Some r, ?d1)"
    using get_task_found[of 0 d tid r] assms by simp
  obtain c d2 where e: "execute ?d1 ?q = (c, d2)" by (cases "execute ?d1 ?q")
  have t: "trace d2 = trace d @ [SELECT_ONE tid, ?q]"
    using e by (auto simp: execute_def Let_def after_call_def split: if_splits option.splits)
  show ?thesis
  proof (cases c)
    case None
    then show ?thesis using g e t assms(4) by (simp add: update_task_def)
  next
    case (Some cur)
    have "snd (update_task d tid u) = after_call (SELECT_ONE tid) d2"
      using g e Some assms(4) get_task_after[of d2 tid] by (simp add: update_task_def)
    then show ?thesis using t by simp
  qed
qed

lemma update_null_title:
  "update_task one_task_db 1 null_title_update =
     (None, one_task_db\<lparr>trace := [SELECT_ONE 1, UPDATE [(''title'', PNone)] 1]\<rparr>)"
  by (simp add: update_task_def dump_null_title get_task_def execute_def Let_def
        one_task_db_def matching_def report_task_def fetchone_def Task_validate_def
        TaskStatus_def set_column_def)

lemma update_status_completed:
  "update_task one_task_db 1 status_completed_update =
     (Some (report_task\<lparr>status := ''completed'', updated_at := 20\<rparr>),
      one_task_db\<lparr>rows := [report_task\<lparr>status := ''completed'', updated_at := 20\<rparr>],
                  trace := [SELECT_ONE 1, UPDATE [(''status'', PStr ''completed'')] 1,
                            SELECT_ONE 1]\<rparr>)"
  by (simp add: update_task_def dump_status_completed get_task_def execute_def Let_def
        one_task_db_def matching_def report_task_def fetchone_def Task_validate_def
        TaskStatus_def set_column_def)

lemma update_status_completed':
  "update_task one_task_db 1 status_completed_update =
     (Some completed_report,
      one_task_db\<lparr>rows := [completed_report],
                  trace := [SELECT_ONE 1, UPDATE [(''status'', PStr ''completed'')] 1,
                            SELECT_ONE 1]\<rparr>)"
  using update_status_completed by (simp add: completed_report_def)

lemma update_status_completed_write_fails:
  "update_task (one_task_db\<lparr>faults := [False, True]\<rparr>) 1 status_completed_update =
     (None, one_task_db\<lparr>faults := [],
              trace := [SELECT_ONE 1, UPDATE [(''status'', PStr ''completed'')] 1]\<rparr>)"
  by (simp add: update_task_def dump_status_completed get_task_def execute_def Let_def
        one_task_db_def matching_def report_task_def fetchone_def Task_validate_def
        TaskStatus_def)

lemma update_status_completed_storage_down:
  "update_task (one_task_db\<lparr>faults := [True, True]\<rparr>) 1 status_completed_update =
     (None, one_task_db\<lparr>faults := [True], trace := [SELECT_ONE 1]\<rparr>)"
  by (simp add: update_task_def get_task_def execute_def Let_def one_task_db_def)

text \<open>
  C9. An update payload with \<open>title\<close> explicitly \<open>null\<close> passes validation exactly when its
  other fields do: the length constraint is not applied to \<open>null\<close>. The validated model has
  \<open>title\<close> among the supplied fields with value \<open>None\<close>, \<open>model_dump(exclude_unset=True)\<close>
  keeps the pair, and for an existing task the statement sent after the existence check
  is the update with that pair in its \<open>SET\<close> clause.
\<close>

theorem explicit_null_title_persisted:
  assumes "p ''title'' = Some PNone"
  shows "(TaskUpdate_validate p \<noteq> None \<longleftrightarrow> TaskUpdate_others_valid p) \<and>
         (TaskUpdate_validate p = Some u \<longrightarrow>
            TaskUpdate.title u = None \<and> ''title'' \<in> model_fields_set u \<and>
            (''title'', PNone) \<in> set (model_dump_exclude_unset u) \<and>
            (stored d tid = Some r \<and> Task_validate r = Some r \<and> calls_succeed 1 d \<longrightarrow>
               take (length (trace d) + 2) (trace (snd (update_task d tid u)))
                 = trace d @ [SELECT_ONE tid, UPDATE (model_dump_exclude_unset u) tid]))"
proof -
  have a: "TaskUpdate_validate p \<noteq> None \<longleftrightarrow> TaskUpdate_others_valid p"
    using TaskUpdate_validate_null_title[of p] assms by simp
  have b: "TaskUpdate.title u = None \<and> ''title'' \<in> model_fields_set u \<and>
           (''title'', PNone) \<in> set (model_dump_exclude_unset u) \<and>
           (stored d tid = Some r \<and> Task_validate r = Some r \<and> calls_succeed 1 d \<longrightarrow>
               take (length (trace d) + 2) (trace (snd (update_task d tid u)))
                 = trace d @ [SELECT_ONE tid, UPDATE (model_dump_exclude_unset u) tid])"
    if v: "TaskUpdate_validate p = Some u"
  proof -
    have f: "TaskUpdate.title u = None \<and> ''title'' \<in> model_fields_set u"
      using TaskUpdate_validate_null_title_fields[of p u] assms v by simp
    have m: "(''title'', PNone) \<in> set (model_dump_exclude_unset u)"
      using dump_title[of u] f by (simp add: str_or_none_def)
    then have ne: "model_dump_exclude_unset u \<noteq> []" by auto
    show ?thesis using f m update_task_trace[of d tid r u] ne by simp
  qed
  show ?thesis using a b by blast
qed

theorem explicit_null_title_persisted_witness:
  "null_title ''title'' = Some PNone \<and> TaskUpdate_others_valid null_title \<and>
   TaskUpdate_validate null_title = Some null_title_update \<and>
   stored one_task_db 1 = Some report_task \<and> Task_validate report_task = Some report_task \<and>
   calls_succeed 1 one_task_db \<and>
   TaskUpdate.title null_title_update = None \<and>
   (''title'', PNone) \<in> set (model_dump_exclude_unset null_title_update) \<and>
   take 2 (trace (snd (update_task one_task_db 1 null_title_update)))
     = [SELECT_ONE 1, UPDATE [(''title'', PNone)] 1]"
proof -
  have h: "null_title ''title'' = Some PNone" by (simp add: null_title_def)
  have o: "TaskUpdate_others_valid null_title"
    by (simp add: TaskUpdate_others_valid_def null_title_def with_default_def)
  have c: "calls_succeed 1 one_task_db" by (simp add: calls_succeed_def one_task_db_def)
  have t: "trace one_task_db = []" by (simp add: one_task_db_def)
  show ?thesis
    using explicit_null_title_persisted[of null_title null_title_update one_task_db 1 report_task]
      h o c t validate_null_title stored_one_task_db report_task_valid dump_null_title
    by (simp add: numeral_2_eq_2)
qed

text \<open>
  C8, as the code has it. For a valid payload the handler answers 200 with the record when
  \<open>update_task\<close> returns one. When it returns none the handler reads the task again and
  answers by that read alone: 404 when the read gives no task, 500 when it gives one. So a
  task that is not stored always gets 404; a stored task whose update failed gets 500 when
  the second read succeeds, and 404 when the second read raises too.
\<close>

theorem update_existing_task_responses:
  assumes "TaskUpdate_validate p = Some u"
  shows "(update_task d tid u = (Some t, d1) \<longrightarrow>
            update_existing_task d tid p = ((200, TaskBody t), d1)) \<and>
         (update_task d tid u = (None, d1) \<longrightarrow>
            fst (update_existing_task d tid p) =
              (if fst (get_task d1 tid) = None then (404, Detail ''Task not found'')
               else (500, Detail ''Could not update task''))) \<and>
         (stored d tid = None \<longrightarrow>
            fst (update_existing_task d tid p) = (404, Detail ''Task not found'')) \<and>
         (update_task d tid u = (None, d1) \<and> stored d1 tid = Some r \<and>
          Task_validate r = Some r \<and> calls_succeed 1 d1 \<longrightarrow>
            fst (update_existing_task d tid p) = (500, Detail ''Could not update task'')) \<and>
         (update_task d tid u = (None, d1) \<and> faults d1 \<noteq> [] \<and> hd (faults d1) \<longrightarrow>
            fst (update_existing_task d tid p) = (404, Detail ''Task not found''))"
proof -
  have a: "update_existing_task d tid p = ((200, TaskBody t), d1)"
    if "update_task d tid u = (Some t, d1)"
    using that assms by (simp add: update_existing_task_def)
  have b: "fst (update_existing_task d tid p) =
              (if fst (get_task d1 tid) = None then (404, Detail ''Task not found'')
               else (500, Detail ''Could not update task''))"
    if "update_task d tid u = (None, d1)"
    using that assms by (cases "get_task d1 tid") (auto simp: update_existing_task_def)
  have c: "fst (update_existing_task d tid p) = (404, Detail ''Task not found'')"
    if s: "stored d tid = None"
  proof -
    have m: "matching tid (rows d) = []" using s by (simp add: stored_def split: list.splits)
    have u: "update_task d tid u = (None, after_call (SELECT_ONE tid) d)"
      by (simp add: update_task_def get_task_missing[OF m])
    have "get_task (after_call (SELECT_ONE tid) d) tid
            = (None, after_call (SELECT_ONE tid) (after_call (SELECT_ONE tid) d))"
      using m by (intro get_task_missing) simp
    then show ?thesis using assms u by (simp add: update_existing_task_def)
  qed
  have e: "fst (update_existing_task d tid p) = (500, Detail ''Could not update task'')"
    if "update_task d tid u = (None, d1) \<and> stored d1 tid = Some r \<and>
          Task_validate r = Some r \<and> calls_succeed 1 d1"
    using that b get_task_found[of 0 d1 tid r] by simp
  have f: "fst (update_existing_task d tid p) = (404, Detail ''Task not found'')"
    if "update_task d tid u = (None, d1) \<and> faults d1 \<noteq> [] \<and> hd (faults d1)"
    using that b get_task_fault[of d1 "tl (faults d1)" tid] by (cases "faults d1") auto
  show ?thesis using a b c e f by blast
qed

theorem update_existing_task_responses_witness:
  "TaskUpdate_validate status_completed = Some status_completed_update \<and>
   fst (update_existing_task one_task_db 1 status_completed) = (200, TaskBody completed_report) \<and>
   stored one_task_db 7 = None \<and>
   fst (update_existing_task one_task_db 7 status_completed) = (404, Detail ''Task not found'') \<and>
   fst (update_task (one_task_db\<lparr>faults := [False, True]\<rparr>) 1 status_completed_update) = None \<and>
   fst (update_existing_task (one_task_db\<lparr>faults := [False, True]\<rparr>) 1 status_completed)
     = (500, Detail ''Could not update task'') \<and>
   fst (update_task (one_task_db\<lparr>faults := [True, True]\<rparr>) 1 status_completed_update) = None \<and>
   fst (update_existing_task (one_task_db\<lparr>faults := [True, True]\<rparr>) 1 status_completed)
     = (404, Detail ''Task not found'')"
proof -
  let ?d500 = "one_task_db\<lparr>faults := [],
              trace := [SELECT_ONE 1, UPDATE [(''status'', PStr ''completed'')] 1]\<rparr>"
  let ?d404 = "one_task_db\<lparr>faults := [True], trace := [SELECT_ONE 1]\<rparr>"
  note v = validate_status_completed
  have n: "stored one_task_db 7 = None"
    by (simp add: stored_def one_task_db_def matching_def report_task_def)
  have s: "stored ?d500 1 = Some report_task"
    using stored_one_task_db by (simp add: stored_def)
  have c: "calls_succeed 1 ?d500" by (simp add: calls_succeed_def)
  have f: "faults ?d404 \<noteq> [] \<and> hd (faults ?d404)" by simp
  have a: "fst (update_existing_task one_task_db 1 status_completed)
             = (200, TaskBody completed_report)"
    using update_existing_task_responses[OF v, where d = one_task_db and tid = 1
        and t = completed_report] update_status_completed' by simp
  have b: "fst (update_existing_task one_task_db 7 status_completed)
             = (404, Detail ''Task not found'')"
    using update_existing_task_responses[OF v, where d = one_task_db and tid = 7] n by simp
  have e: "fst (update_existing_task (one_task_db\<lparr>faults := [False, True]\<rparr>) 1 status_completed)
             = (500, Detail ''Could not update task'')"
    using update_existing_task_responses[OF v, where d = "one_task_db\<lparr>faults := [False, True]\<rparr>"
        and tid = 1 and ?d1.0 = ?d500 and r = report_task]
      update_status_completed_write_fails s c report_task_valid by blast
  have g: "fst (update_existing_task (one_task_db\<lparr>faults := [True, True]\<rparr>) 1 status_completed)
             = (404, Detail ''Task not found'')"
    using update_existing_task_responses[OF v, where d = "one_task_db\<lparr>faults := [True, True]\<rparr>"
        and tid = 1 and ?d1.0 = ?d404]
      update_status_completed_storage_down f by blast
  show ?thesis
    using v n a b e g update_status_completed_write_fails update_status_completed_storage_down
    by simp
qed

text \<open>
  The claim as stated fails: the task is stored and valid, both storage calls of the
  request raise, so the update failed for a reason other than absence, and the handler
  answers 404.
\<close>

theorem update_existing_task_404_for_existing:
  "TaskUpdate_validate [''status'' \<mapsto> PStr ''completed''] \<noteq> None \<and>
   stored (one_task_db\<lparr>faults := [True, True]\<rparr>) 1 = Some report_task \<and>
   Task_validate report_task = Some report_task \<and>
   fst (update_existing_task (one_task_db\<lparr>faults := [True, True]\<rparr>) 1
          [''status'' \<mapsto> PStr ''completed'']) = (404, Detail ''Task not found'')"
  by (simp add: TaskUpdate_validate_def with_default_def optional_of_def status_literal_def
        TaskStatus_def stored_def one_task_db_def matching_def report_task_def Task_validate_def
        update_existing_task_def update_task_def get_task_def execute_def Let_def)

subsection \<open>What an update changes\<close>

lemma set_column_ids:
  "set_column kv r = Some r' \<Longrightarrow>
   task_id r' = task_id r \<and> created_at r' = created_at r \<and> updated_at r' = updated_at r"
  by (auto simp: set_column_def split: if_splits pyval.splits)

lemma set_column_other:
  assumes "set_column kv r = Some r'"
  shows "(k \<noteq> fst kv \<longrightarrow> k = ''title'' \<longrightarrow> title r' = title r) \<and>
         (k \<noteq> fst kv \<longrightarrow> k = ''description'' \<longrightarrow> description r' = description r) \<and>
         (k \<noteq> fst kv \<longrightarrow> k = ''status'' \<longrightarrow> status r' = status r) \<and>
         (k \<noteq> fst kv \<longrightarrow> k = ''due_date'' \<longrightarrow> due_date r' = due_date r)"
  using assms by (auto simp: set_column_def split: if_splits pyval.splits)

lemma set_columns_ids:
  "set_columns kvs r = Some r' \<Longrightarrow>
   task_id r' = task_id r \<and> created_at r' = created_at r \<and> updated_at r' = updated_at r"
proof (induction kvs arbitrary: r)
  case Nil
  then show ?case by simp
next
  case (Cons kv kvs)
  then obtain r1 where a: "set_column kv r = Some r1" and b: "set_columns kvs r1 = Some r'"
    by (auto split: option.splits)
  show ?case using set_column_ids[OF a] Cons.IH[OF b] by simp
qed

lemma set_columns_other:
  assumes "set_columns kvs r = Some r'" and "k \<notin> fst ` set kvs"
  shows "(k = ''title'' \<longrightarrow> title r' = title r) \<and>
         (k = ''description'' \<longrightarrow> description r' = description r) \<and>
         (k = ''status'' \<longrightarrow> status r' = status r) \<and>
         (k = ''due_date'' \<longrightarrow> due_date r' = due_date r)"
  using assms
proof (induction kvs arbitrary: r)
  case Nil
  then show ?case by simp
next
  case (Cons kv kvs)
  then obtain r1 where a: "set_column kv r = Some r1" and b: "set_columns kvs r1 = Some r'"
    by (auto split: option.splits)
  have n: "k \<noteq> fst kv" and m: "k \<notin> fst ` set kvs"
    using Cons.prems(2) by auto
  have 1: "(k = ''title'' \<longrightarrow> title r1 = title r) \<and>
         (k = ''description'' \<longrightarrow> description r1 = description r) \<and>
         (k = ''status'' \<longrightarrow> status r1 = status r) \<and>
         (k = ''due_date'' \<longrightarrow> due_date r1 = due_date r)"
    using set_column_other[OF a, of k] n by blast
  show ?case using 1 Cons.IH[OF b m] by metis
qed

lemma set_column_value:
  assumes "set_column (k, v) r = Some r'"
  shows "(k = ''title'' \<longrightarrow> v = PStr (title r')) \<and>
         (k = ''description'' \<longrightarrow> v = str_or_none (description r')) \<and>
         (k = ''status'' \<longrightarrow> v = PStr (status r')) \<and>
         (k = ''due_date'' \<longrightarrow> v = date_or_none (due_date r'))"
  using assms
  by (auto simp: set_column_def str_or_none_def date_or_none_def split: if_splits pyval.splits)

lemma set_columns_value:
  assumes "set_columns kvs r = Some r'" and "distinct (map fst kvs)" and "(k, v) \<in> set kvs"
  shows "(k = ''title'' \<longrightarrow> v = PStr (title r')) \<and>
         (k = ''description'' \<longrightarrow> v = str_or_none (description r')) \<and>
         (k = ''status'' \<longrightarrow> v = PStr (status r')) \<and>
         (k = ''due_date'' \<longrightarrow> v = date_or_none (due_date r'))"
  using assms
proof (induction kvs arbitrary: r)
  case Nil
  then show ?case by simp
next
  case (Cons kv kvs)
  then obtain r1 where a: "set_column kv r = Some r1" and b: "set_columns kvs r1 = Some r'"
    by (auto split: option.splits)
  have dk: "distinct (map fst kvs)" and nk: "fst kv \<notin> fst ` set kvs"
    using Cons.prems(2) by auto
  show ?case
  proof (cases "(k, v) \<in> set kvs")
    case True
    show ?thesis by (rule Cons.IH[OF b dk True])
  next
    case False
    then have e: "kv = (k, v)" using Cons.prems(3) by simp
    have n: "k \<notin> fst ` set kvs" using nk e by simp
    have 1: "(k = ''title'' \<longrightarrow> v = PStr (title r1)) \<and>
         (k = ''description'' \<longrightarrow> v = str_or_none (description r1)) \<and>
         (k = ''status'' \<longrightarrow> v = PStr (status r1)) \<and>
         (k = ''due_date'' \<longrightarrow> v = date_or_none (due_date r1))"
      using set_column_value[of k v r r1] a e by simp
    show ?thesis using 1 set_columns_other[OF b n] by metis
  qed
qed

lemma set_columns_admitted:
  "(\<And>kv r. kv \<in> set kvs \<Longrightarrow> set_column kv r \<noteq> None) \<Longrightarrow> set_columns kvs r \<noteq> None"
  by (induction kvs arbitrary: r) (auto split: option.splits)

lemma update_rows_admitted:
  assumes "\<And>r. set_columns kvs r \<noteq> None"
  shows "update_rows kvs tid now rs \<noteq> None"
proof (induction rs)
  case Nil
  show ?case by simp
next
  case (Cons a rs)
  obtain a' where "set_columns kvs a = Some a'" using assms[of a] by blast
  then show ?case using Cons by auto
qed

lemma update_rows_matching:
  assumes "update_rows kvs tid now rs = Some rs'" and "matching tid rs = r # rest"
  shows "\<exists>r1 rest'. set_columns kvs r = Some r1 \<and> matching tid rs' = r1\<lparr>updated_at := now\<rparr> # rest'"
  using assms
proof (induction rs arbitrary: rs')
  case Nil
  then show ?case by (simp add: matching_def)
next
  case (Cons a rs)
  show ?case
  proof (cases "task_id a = tid")
    case True
    then have ar: "a = r" using Cons.prems(2) by (simp add: matching_def)
    from Cons.prems(1) True obtain r1 rs1 where
      "set_columns kvs a = Some r1" "update_rows kvs tid now rs = Some rs1"
      "rs' = r1\<lparr>updated_at := now\<rparr> # rs1"
      by (auto split: option.splits)
    moreover have "task_id r1 = tid" using set_columns_ids[of kvs a r1] calculation True by simp
    ultimately show ?thesis using ar by (simp add: matching_def)
  next
    case False
    from Cons.prems(1) False obtain rs1 where
      u: "update_rows kvs tid now rs = Some rs1" and e: "rs' = a # rs1"
      by (auto split: option.splits)
    have m: "matching tid rs = r # rest" using Cons.prems(2) False by (simp add: matching_def)
    show ?thesis using Cons.IH[OF u m] e False by (simp add: matching_def)
  qed
qed

lemma execute_UPDATE_cases:
  assumes "execute d (UPDATE kvs tid) = (c, d2)"
  shows "(c = None \<and> d2 = after_call (UPDATE kvs tid) d) \<or>
         (\<exists>cur rs. c = Some cur \<and> update_rows kvs tid (clock d) (rows d) = Some rs \<and>
                    d2 = (after_call (UPDATE kvs tid) d)\<lparr>rows := rs\<rparr>)"
  using assms
  by (auto simp: execute_def Let_def after_call_def split: if_splits option.splits)

lemma stored_matching: "stored d tid = Some r \<Longrightarrow> \<exists>rest. matching tid (rows d) = r # rest"
  by (auto simp: stored_def split: list.splits)

lemma stored_after_update:
  assumes "stored d tid = Some r" and "update_rows kvs tid now (rows d) = Some rs"
      and "rows d2 = rs"
  shows "\<exists>r1. set_columns kvs r = Some r1 \<and> stored d2 tid = Some (r1\<lparr>updated_at := now\<rparr>)"
proof -
  obtain rest where m: "matching tid (rows d) = r # rest"
    using stored_matching[OF assms(1)] by blast
  obtain r1 rest' where "set_columns kvs r = Some r1"
      "matching tid rs = r1\<lparr>updated_at := now\<rparr> # rest'"
    using update_rows_matching[OF assms(2) m] by blast
  then show ?thesis using assms(3) by (simp add: stored_def)
qed

lemma dump_admitted:
  assumes v: "TaskUpdate_validate p = Some u"
      and t: "''title'' \<in> model_fields_set u \<longrightarrow> TaskUpdate.title u \<noteq> None"
      and s: "''status'' \<in> model_fields_set u \<longrightarrow> TaskUpdate.status u \<noteq> None"
      and kv: "kv \<in> set (model_dump_exclude_unset u)"
  shows "set_column kv r \<noteq> None"
proof -
  have f: "fst kv \<in> model_fields_set u" and m: "kv \<in> set (model_dump u)"
    using kv by (simp_all add: dump_member)
  from m show ?thesis
  proof (cases rule: model_dump_cases)
    case 1
    then obtain x where x: "TaskUpdate.title u = Some x" using f t by auto
    have "length x \<le> 255" using validated_update[OF v, of x] x by simp
    then show ?thesis using 1 x by (simp add: set_column_def str_or_none_def)
  next
    case 2
    then show ?thesis by (simp add: set_column_def str_or_none_def split: option.splits)
  next
    case 3
    then obtain x where x: "TaskUpdate.status u = Some x" using f s by auto
    have "x \<in> set TaskStatus" using validated_update[OF v, of x] x by simp
    then show ?thesis using 3 x by (simp add: set_column_def str_or_none_def)
  next
    case 4
    then show ?thesis by (simp add: set_column_def date_or_none_def split: option.splits)
  qed
qed

lemma dump_sets:
  assumes "set_columns (model_dump_exclude_unset u) r = Some r1"
      and "model_fields_set u \<subseteq> set TaskUpdate_fields"
  shows "task_id r1 = task_id r \<and> created_at r1 = created_at r \<and>
         (''title'' \<notin> model_fields_set u \<longrightarrow> title r1 = title r) \<and>
         (''description'' \<notin> model_fields_set u \<longrightarrow> description r1 = description r) \<and>
         (''status'' \<notin> model_fields_set u \<longrightarrow> status r1 = status r) \<and>
         (''due_date'' \<notin> model_fields_set u \<longrightarrow> due_date r1 = due_date r) \<and>
         (''title'' \<in> model_fields_set u \<longrightarrow> TaskUpdate.title u = Some (title r1)) \<and>
         (''description'' \<in> model_fields_set u \<longrightarrow> TaskUpdate.description u = description r1) \<and>
         (''status'' \<in> model_fields_set u \<longrightarrow> TaskUpdate.status u = Some (status r1)) \<and>
         (''due_date'' \<in> model_fields_set u \<longrightarrow> TaskUpdate.due_date u = due_date r1)"
proof -
  let ?kvs = "model_dump_exclude_unset u"
  have k: "k \<notin> fst ` set ?kvs" if "k \<notin> model_fields_set u" for k
    using that by (simp add: dump_keys)
  have i: "task_id r1 = task_id r \<and> created_at r1 = created_at r"
    using set_columns_ids[OF assms(1)] by simp
  have o1: "title r1 = title r" if "''title'' \<notin> model_fields_set u"
    using set_columns_other[OF assms(1) k[OF that]] by simp
  have o2: "description r1 = description r" if "''description'' \<notin> model_fields_set u"
    using set_columns_other[OF assms(1) k[OF that]] by simp
  have o3: "status r1 = status r" if "''status'' \<notin> model_fields_set u"
    using set_columns_other[OF assms(1) k[OF that]] by simp
  have o4: "due_date r1 = due_date r" if "''due_date'' \<notin> model_fields_set u"
    using set_columns_other[OF assms(1) k[OF that]] by simp
  have v1: "TaskUpdate.title u = Some (title r1)" if "''title'' \<in> model_fields_set u"
  proof -
    have "(''title'', str_or_none (TaskUpdate.title u)) \<in> set ?kvs"
      using that by (simp add: dump_member model_dump_def)
    from set_columns_value[OF assms(1) dump_distinct this]
    show ?thesis by (simp add: str_or_none_def split: option.splits)
  qed
  have v2: "TaskUpdate.description u = description r1" if "''description'' \<in> model_fields_set u"
  proof -
    have "(''description'', str_or_none (TaskUpdate.description u)) \<in> set ?kvs"
      using that by (simp add: dump_member model_dump_def)
    from set_columns_value[OF assms(1) dump_distinct this]
    show ?thesis by (simp add: str_or_none_def split: option.splits)
  qed
  have v3: "TaskUpdate.status u = Some (status r1)" if "''status'' \<in> model_fields_set u"
  proof -
    have "(''status'', str_or_none (TaskUpdate.status u)) \<in> set ?kvs"
      using that by (simp add: dump_member model_dump_def)
    from set_columns_value[OF assms(1) dump_distinct this]
    show ?thesis by (simp add: str_or_none_def split: option.splits)
  qed
  have v4: "TaskUpdate.due_date u = due_date r1" if "''due_date'' \<in> model_fields_set u"
  proof -
    have "(''due_date'', date_or_none (TaskUpdate.due_date u)) \<in> set ?kvs"
      using that by (simp add: dump_member model_dump_def)
    from set_columns_value[OF assms(1) dump_distinct this]
    show ?thesis by (simp add: date_or_none_def split: option.splits)
  qed
  show ?thesis using i o1 o2 o3 o4 v1 v2 v3 v4 by blast
qed

lemma unsupplied_unchanged_refl: "unsupplied_unchanged u r r"
  by (simp add: unsupplied_unchanged_def)

lemma updated_row_valid:
  assumes rv: "Task_validate r = Some r" and v: "TaskUpdate_validate p = Some u"
      and sc: "set_columns (model_dump_exclude_unset u) r = Some r1"
  shows "Task_validate (r1\<lparr>updated_at := now\<rparr>) = Some (r1\<lparr>updated_at := now\<rparr>)"
proof -
  have sub: "model_fields_set u \<subseteq> set TaskUpdate_fields"
    using validated_update[OF v] by simp
  note ds = dump_sets[OF sc sub]
  have r: "1 \<le> length (title r) \<and> length (title r) \<le> 255 \<and> status r \<in> set TaskStatus"
    using rv by (simp add: Task_validate_def split: if_splits)
  have t: "1 \<le> length (title r1) \<and> length (title r1) \<le> 255"
  proof (cases "''title'' \<in> model_fields_set u")
    case True
    then have "TaskUpdate.title u = Some (title r1)" using ds by simp
    then show ?thesis using validated_update[OF v, of "title r1"] by simp
  next
    case False
    then have "title r1 = title r" using ds by simp
    then show ?thesis using r by simp
  qed
  have s: "status r1 \<in> set TaskStatus"
  proof (cases "''status'' \<in> model_fields_set u")
    case True
    then have "TaskUpdate.status u = Some (status r1)" using ds by simp
    then show ?thesis using validated_update[OF v, of "status r1"] by simp
  next
    case False
    then have "status r1 = status r" using ds by simp
    then show ?thesis using r by simp
  qed
  show ?thesis using t s by (simp add: Task_validate_def)
qed

lemma update_task_frame:
  assumes s: "stored d tid = Some r" and rv: "Task_validate r = Some r"
      and v: "TaskUpdate_validate p = Some u"
      and ut: "update_task d tid u = (res, d')"
  shows "\<exists>r'. stored d' tid = Some r' \<and> unsupplied_unchanged u r r' \<and>
              (res \<noteq> None \<longrightarrow> res = Some r') \<and>
              (calls_succeed 3 d \<and> model_fields_set u \<noteq> {} \<and> no_null_for_required u \<longrightarrow>
                 res = Some r' \<and> supplied_applied u r' \<and> updated_at r' = clock d)"
proof -
  let ?d1 = "after_call (SELECT_ONE tid) d"
  let ?kvs = "model_dump_exclude_unset u"
  let ?q = "UPDATE ?kvs tid"
  let ?succ = "calls_succeed 3 d \<and> model_fields_set u \<noteq> {} \<and> no_null_for_required u"
  have sub: "model_fields_set u \<subseteq> set TaskUpdate_fields"
    using validated_update[OF v] by simp
  obtain g where g: "get_task d tid = (g, ?d1)"
    using get_task_after[of d tid] by (cases "get_task d tid") simp
  have c3: "calls_succeed 1 d \<and> calls_succeed 2 ?d1" if "calls_succeed 3 d"
  proof -
    have "calls_succeed 2 d" using that calls_succeed_mono[of 2 d] by (simp add: numeral_3_eq_3 numeral_2_eq_2)
    then show ?thesis using calls_succeed_mono[of 1 d] calls_succeed_after[of 2 d "SELECT_ONE tid"] that
      by (simp add: numeral_3_eq_3 numeral_2_eq_2)
  qed
  have gs: "g = Some r" if "calls_succeed 3 d"
    using get_task_found[of 0 d tid r] c3[OF that] s rv g by simp
  have adm: "update_rows ?kvs tid now rs \<noteq> None" if "no_null_for_required u" for now rs
  proof -
    have "set_column kv x \<noteq> None" if "kv \<in> set ?kvs" for kv x
      using dump_admitted[OF v _ _ that] \<open>no_null_for_required u\<close>
      by (simp add: no_null_for_required_def)
    then have "set_columns ?kvs x \<noteq> None" for x
      by (intro set_columns_admitted) blast
    then show ?thesis by (intro update_rows_admitted) blast
  qed
  show ?thesis
  proof (cases g)
    case None
    then have "res = None" "d' = ?d1" using ut g by (simp_all add: update_task_def)
    then show ?thesis using s gs None unsupplied_unchanged_refl by auto
  next
    case (Some e)
    then have e: "e = r" using get_task_Some[of d tid e ?d1] g s by simp
    show ?thesis
    proof (cases "?kvs = []")
      case True
      then have "res = Some r" "d' = ?d1" using ut g Some e by (simp_all add: update_task_def)
      moreover have "\<not> ?succ" using True dump_nonempty[OF v] by blast
      ultimately show ?thesis using s unsupplied_unchanged_refl by auto
    next
      case False
      obtain c d2 where ex: "execute ?d1 ?q = (c, d2)" by (cases "execute ?d1 ?q")
      have ut2: "(res, d') = (case c of None \<Rightarrow> (None, d2) | Some cur \<Rightarrow> get_task d2 tid)"
        using ut g Some False ex by (simp add: update_task_def split: option.splits)
      from execute_UPDATE_cases[OF ex] show ?thesis
      proof (elim disjE conjE exE)
        assume cn: "c = None" and d2: "d2 = after_call ?q ?d1"
        have "res = None" "d' = d2" using ut2 cn by simp_all
        moreover have "\<not> ?succ"
        proof
          assume a: ?succ
          then have "execute ?d1 ?q = run ?q (after_call ?q ?d1)"
            using execute_ok[of 1 ?d1 ?q] c3 by (simp add: numeral_2_eq_2)
          moreover obtain rs where "update_rows ?kvs tid (clock d) (rows d) = Some rs"
            using adm[of "clock d" "rows d"] a by auto
          ultimately show False using ex cn by simp
        qed
        ultimately show ?thesis using s d2 unsupplied_unchanged_refl by auto
      next
        fix cur rs
        assume cs: "c = Some cur"
          and ur: "update_rows ?kvs tid (clock ?d1) (rows ?d1) = Some rs"
          and d2: "d2 = (after_call ?q ?d1)\<lparr>rows := rs\<rparr>"
        have s1: "stored ?d1 tid = Some r" using s by simp
        obtain r1 where sc: "set_columns ?kvs r = Some r1"
          and st: "stored d2 tid = Some (r1\<lparr>updated_at := clock d\<rparr>)"
          using stored_after_update[OF s1 ur, of d2] d2 by auto
        let ?r' = "r1\<lparr>updated_at := clock d\<rparr>"
        have gd: "get_task d2 tid = (res, d')" using ut2 cs by simp
        have d': "d' = after_call (SELECT_ONE tid) d2" using gd get_task_after[of d2 tid] by simp
        have st': "stored d' tid = Some ?r'" using st d' by simp
        note ds = dump_sets[OF sc sub]
        have fr: "unsupplied_unchanged u r ?r'"
          using ds by (simp add: unsupplied_unchanged_def)
        have rr: "res = Some ?r'" if ne: "res \<noteq> None"
        proof -
          obtain t where "res = Some t" using ne by auto
          then show ?thesis using get_task_Some[of d2 tid t d'] gd st by simp
        qed
        have su: "res = Some ?r' \<and> supplied_applied u ?r' \<and> updated_at ?r' = clock d" if a: ?succ
        proof -
          have "calls_succeed 1 d2"
            using c3 a calls_succeed_after[of 1 ?d1 ?q] d2 by (simp add: numeral_2_eq_2)
          then have "get_task d2 tid = (Task_validate ?r', after_call (SELECT_ONE tid) d2)"
            using get_task_found[of 0 d2 tid ?r'] st by simp
          then have "res = Some ?r'"
            using gd updated_row_valid[OF rv v sc, of "clock d"] by simp
          then show ?thesis using ds by (simp add: supplied_applied_def)
        qed
        show ?thesis using st' fr rr su by blast
      qed
    qed
  qed
qed

lemma set_column_null_title: "set_column (''title'', PNone) r = None"
  by (simp add: set_column_def)

lemma set_columns_null_title:
  "(''title'', PNone) \<in> set kvs \<Longrightarrow> set_columns kvs r = None"
proof (induction kvs arbitrary: r)
  case Nil
  then show ?case by simp
next
  case (Cons kv kvs)
  show ?case
  proof (cases "kv = (''title'', PNone)")
    case True
    then show ?thesis by (simp add: set_column_null_title)
  next
    case False
    then have "(''title'', PNone) \<in> set kvs" using Cons.prems by simp
    then show ?thesis using Cons.IH by (simp split: option.splits)
  qed
qed

lemma update_rows_refused:
  assumes "\<And>r. set_columns kvs r = None" and "matching tid rs \<noteq> []"
  shows "update_rows kvs tid now rs = None"
  using assms(2)
proof (induction rs)
  case Nil
  then show ?case by (simp add: matching_def)
next
  case (Cons a rs)
  show ?case
  proof (cases "task_id a = tid")
    case True
    then show ?thesis using assms(1)[of a] by simp
  next
    case False
    then have "matching tid rs \<noteq> []" using Cons.prems by (simp add: matching_def)
    then show ?thesis using Cons.IH False by simp
  qed
qed

lemma update_task_null_title:
  assumes s: "stored d tid = Some r"
      and m: "(''title'', PNone) \<in> set (model_dump_exclude_unset u)"
      and ut: "update_task d tid u = (res, d')"
  shows "res = None"
proof -
  let ?d1 = "after_call (SELECT_ONE tid) d"
  let ?kvs = "model_dump_exclude_unset u"
  have ne: "?kvs \<noteq> []" using m by auto
  obtain g where g: "get_task d tid = (g, ?d1)"
    using get_task_after[of d tid] by (cases "get_task d tid") simp
  show ?thesis
  proof (cases g)
    case None
    then show ?thesis using ut g by (simp add: update_task_def)
  next
    case (Some e)
    obtain c d2 where ex: "execute ?d1 (UPDATE ?kvs tid) = (c, d2)"
      by (cases "execute ?d1 (UPDATE ?kvs tid)")
    have "matching tid (rows ?d1) \<noteq> []"
      using stored_matching[OF s] by auto
    then have "update_rows ?kvs tid (clock ?d1) (rows ?d1) = None"
      using update_rows_refused[of ?kvs tid "rows ?d1" "clock ?d1"] set_columns_null_title[OF m]
      by blast
    then have "c = None" using execute_UPDATE_cases[OF ex] by auto
    then show ?thesis using ut g Some ne ex by (simp add: update_task_def)
  qed
qed

text \<open>
  C1, as the code has it. For an existing task and a validated update payload, whatever
  the storage does, the stored record afterwards has its key, its creation time and every
  field the payload did not supply unchanged, and a record that \<open>update_task\<close> returns is
  that stored record. When the three storage calls succeed, the payload supplies at least
  one field and no explicit \<open>null\<close> for \<open>title\<close> or \<open>status\<close>, a record is returned, every
  supplied field holds the supplied value and \<open>updated_at\<close> is the time of the write.
  When the payload sets \<open>title\<close> to explicit \<open>null\<close>, no record is returned, whatever the
  storage does; the pair of \<open>title\<close> and \<open>null\<close> is among the fields sent, and once the
  existence check has succeeded the update statement carrying it is sent as it is.
\<close>

theorem update_task_partial:
  assumes s: "stored d tid = Some r" and rv: "Task_validate r = Some r"
      and v: "TaskUpdate_validate p = Some u"
      and ut: "update_task d tid u = (res, d')"
  shows "(\<exists>r'. stored d' tid = Some r' \<and> unsupplied_unchanged u r r' \<and>
              (res \<noteq> None \<longrightarrow> res = Some r') \<and>
              (calls_succeed 3 d \<and> model_fields_set u \<noteq> {} \<and> no_null_for_required u \<longrightarrow>
                 res = Some r' \<and> supplied_applied u r' \<and> updated_at r' = clock d)) \<and>
         (''title'' \<in> model_fields_set u \<and> TaskUpdate.title u = None \<longrightarrow>
            res = None \<and> (''title'', PNone) \<in> set (model_dump_exclude_unset u) \<and>
            (calls_succeed 1 d \<longrightarrow>
               take (length (trace d) + 2) (trace d')
                 = trace d @ [SELECT_ONE tid, UPDATE (model_dump_exclude_unset u) tid]))"
proof -
  have n: "res = None \<and> (''title'', PNone) \<in> set (model_dump_exclude_unset u) \<and>
            (calls_succeed 1 d \<longrightarrow>
               take (length (trace d) + 2) (trace d')
                 = trace d @ [SELECT_ONE tid, UPDATE (model_dump_exclude_unset u) tid])"
    if nt: "''title'' \<in> model_fields_set u \<and> TaskUpdate.title u = None"
  proof -
    have m: "(''title'', PNone) \<in> set (model_dump_exclude_unset u)"
      using dump_title[of u] nt by (simp add: str_or_none_def)
    then have ne: "model_dump_exclude_unset u \<noteq> []" by auto
    have t: "take (length (trace d) + 2) (trace d')
                 = trace d @ [SELECT_ONE tid, UPDATE (model_dump_exclude_unset u) tid]"
      if "calls_succeed 1 d"
      using update_task_trace[OF s rv that ne] ut by simp
    show ?thesis using update_task_null_title[OF s m ut] m t by blast
  qed
  show ?thesis using update_task_frame[OF s rv v ut] n by blast
qed

theorem update_task_partial_witness:
  "stored one_task_db 1 = Some report_task \<and> Task_validate report_task = Some report_task \<and>
   TaskUpdate_validate status_completed = Some status_completed_update \<and>
   calls_succeed 3 one_task_db \<and> model_fields_set status_completed_update \<noteq> {} \<and>
   no_null_for_required status_completed_update \<and>
   fst (update_task one_task_db 1 status_completed_update) = Some completed_report \<and>
   stored (snd (update_task one_task_db 1 status_completed_update)) 1 = Some completed_report \<and>
   unsupplied_unchanged status_completed_update report_task completed_report \<and>
   supplied_applied status_completed_update completed_report \<and>
   updated_at completed_report = clock one_task_db \<and>
   TaskUpdate_validate null_title = Some null_title_update \<and>
   ''title'' \<in> model_fields_set null_title_update \<and>
   TaskUpdate.title null_title_update = None \<and>
   calls_succeed 1 one_task_db \<and>
   fst (update_task one_task_db 1 null_title_update) = None \<and>
   take 2 (trace (snd (update_task one_task_db 1 null_title_update)))
     = [SELECT_ONE 1, UPDATE [(''title'', PNone)] 1]"
proof -
  let ?d' = "one_task_db\<lparr>rows := [completed_report],
                  trace := [SELECT_ONE 1, UPDATE [(''status'', PStr ''completed'')] 1,
                            SELECT_ONE 1]\<rparr>"
  let ?n' = "one_task_db\<lparr>trace := [SELECT_ONE 1, UPDATE [(''title'', PNone)] 1]\<rparr>"
  have c: "calls_succeed 3 one_task_db" by (simp add: calls_succeed_def one_task_db_def)
  have c1: "calls_succeed 1 one_task_db" by (simp add: calls_succeed_def one_task_db_def)
  have m: "model_fields_set status_completed_update \<noteq> {}"
    by (simp add: status_completed_update_def)
  have n: "no_null_for_required status_completed_update"
    by (simp add: no_null_for_required_def status_completed_update_def)
  have st: "stored ?d' 1 = Some completed_report"
    by (simp add: stored_def matching_def completed_report_def report_task_def)
  have u: "update_task one_task_db 1 status_completed_update = (Some completed_report, ?d')"
    by (rule update_status_completed')
  obtain r' where r': "stored ?d' 1 = Some r'"
    "unsupplied_unchanged status_completed_update report_task r'"
    "supplied_applied status_completed_update r'" "updated_at r' = clock one_task_db"
    using update_task_partial[OF stored_one_task_db report_task_valid validate_status_completed u]
      c m n
    by blast
  have e: "r' = completed_report" using r'(1) st by simp
  have nf: "''title'' \<in> model_fields_set null_title_update \<and>
            TaskUpdate.title null_title_update = None"
    by (simp add: null_title_update_def)
  have un: "update_task one_task_db 1 null_title_update
              = (fst (update_task one_task_db 1 null_title_update), ?n')"
    using update_null_title by simp
  have t0: "trace one_task_db = []" by (simp add: one_task_db_def)
  have nr: "fst (update_task one_task_db 1 null_title_update) = None \<and>
            take 2 (trace ?n') = [SELECT_ONE 1, UPDATE [(''title'', PNone)] 1]"
    using update_task_partial[OF stored_one_task_db report_task_valid validate_null_title un]
      nf c1 t0 dump_null_title
    by (simp add: numeral_2_eq_2)
  have sn: "snd (update_task one_task_db 1 null_title_update) = ?n'"
    using update_null_title by simp
  show ?thesis
    using r' e u c c1 m n stored_one_task_db report_task_valid validate_status_completed st
      validate_null_title nf nr sn
    by simp
qed

text \<open>
  The claim as stated fails: \<open>{"title": null}\<close> supplies a proper subset of the fields for
  an existing task and no storage call is made to fail, yet no record is returned and the
  title is not changed; the table refuses the write.
\<close>

theorem update_task_null_title_no_record:
  "stored one_task_db 1 = Some report_task \<and> Task_validate report_task = Some report_task \<and>
   TaskUpdate_validate null_title = Some null_title_update \<and>
   model_fields_set null_title_update = {''title''} \<and>
   calls_succeed 3 one_task_db \<and>
   fst (update_task one_task_db 1 null_title_update) = None \<and>
   rows (snd (update_task one_task_db 1 null_title_update)) = rows one_task_db"
  using stored_one_task_db report_task_valid validate_null_title update_null_title
  by (simp add: null_title_update_def calls_succeed_def one_task_db_def)

subsection \<open>Listing\<close>

lemma ordered_desc:
  "sorted_wrt (\<lambda>a b. created_at b \<le> created_at a) (order_by_created_at_desc rs)"
proof -
  have "sorted (map created_at (sort_key created_at rs))" by simp
  then have "sorted_wrt (\<lambda>a b. created_at a \<le> created_at b) (sort_key created_at rs)"
    by (simp only: sorted_wrt_map)
  then show ?thesis by (simp add: order_by_created_at_desc_def sorted_wrt_rev)
qed

lemma ordered_mset: "mset (order_by_created_at_desc rs) = mset rs"
  by (simp add: order_by_created_at_desc_def)

lemma ordered_keys_distinct:
  "distinct (map task_id rs) \<Longrightarrow> distinct (map task_id (order_by_created_at_desc rs))"
proof -
  have "mset (map task_id (order_by_created_at_desc rs)) = mset (map task_id rs)"
    by (simp add: ordered_mset)
  then show "distinct (map task_id rs) \<Longrightarrow> distinct (map task_id (order_by_created_at_desc rs))"
    using mset_eq_imp_distinct_iff by blast
qed

lemma arrangement_mset: "mset (arrangement d) = mset (rows d)"
  by (simp add: arrangement_def split: list.splits)

lemma arrangement_after_call [simp]: "arrangement (after_call q d) = arrangement d"
  by (simp add: arrangement_def after_call_def split: list.splits)

lemma tie_orders_after_call [simp]: "tie_orders (after_call q d) = tie_orders d"
  by (simp add: after_call_def)

lemma rows_valid_after_call [simp]: "rows_valid (after_call q d) = rows_valid d"
  by (simp add: rows_valid_def)

text \<open>With no two rows created at the same time there is one ordered rearrangement.\<close>

lemma sort_key_unique:
  assumes "mset xs = mset ys" and "distinct (map f ys)"
  shows "sort_key f xs = sort_key f ys"
proof -
  let ?a = "sort_key f xs" and ?b = "sort_key f ys"
  have m: "mset (map f ?a) = mset (map f ?b)" using assms(1) by simp
  have db: "distinct (map f ?b)"
    using assms(2) mset_eq_imp_distinct_iff[of "map f ?b" "map f ys"] by simp
  have da: "distinct (map f ?a)"
    using db m mset_eq_imp_distinct_iff[of "map f ?a" "map f ?b"] by simp
  have "set (map f ?a) = set (map f ?b)" using m by (rule mset_eq_setD)
  then have e: "map f ?a = map f ?b"
    using sorted_distinct_set_unique[of "map f ?a" "map f ?b"] da db by simp
  have "set ?a = set ?b" using assms(1) mset_eq_setD[of xs ys] by simp
  moreover have "inj_on f (set ?b)" using db by (simp add: distinct_map)
  ultimately have "inj_on f (set ?a \<union> set ?b)" by simp
  then show ?thesis using e by (simp add: inj_on_map_eq_map)
qed

lemma ordered_unique:
  "distinct (map created_at (rows d)) \<Longrightarrow>
   order_by_created_at_desc (arrangement d) = order_by_created_at_desc (rows d)"
  using sort_key_unique[of "arrangement d" "rows d" created_at]
  by (simp add: order_by_created_at_desc_def arrangement_mset)

lemma append_tasks_valid:
  "(\<And>r. r \<in> set rs \<Longrightarrow> Task_validate r = Some r) \<Longrightarrow> append_tasks acc rs = Some (acc @ rs)"
  by (induction rs arbitrary: acc) auto

lemma get_tasks_ok:
  assumes "calls_succeed 1 d" and "rows_valid d"
      and "0 \<le> skip" and "0 \<le> limit"
  shows "get_tasks d skip limit =
           (take (nat limit) (drop (nat skip) (order_by_created_at_desc (arrangement d))),
            (after_call (SELECT_PAGE limit skip) d)\<lparr>tie_orders := tl (tie_orders d)\<rparr>)"
proof -
  let ?page = "take (nat limit) (drop (nat skip) (order_by_created_at_desc (arrangement d)))"
  have "set ?page \<subseteq> set (order_by_created_at_desc (arrangement d))"
    by (meson order_trans set_drop_subset set_take_subset)
  also have "\<dots> = set (arrangement d)" by (simp add: order_by_created_at_desc_def)
  also have "\<dots> = set (rows d)" using arrangement_mset[of d] by (rule mset_eq_setD)
  finally have "append_tasks [] ?page = Some ?page"
    using assms(2) append_tasks_valid[of ?page "[]"] by (auto simp: rows_valid_def list_all_iff)
  then show ?thesis
    using execute_ok[of 0 d "SELECT_PAGE limit skip"] assms(1,3,4)
    by (simp add: get_tasks_def fetchall_def Let_def)
qed

lemma arrangement_cong:
  "tie_orders d' = tie_orders d \<Longrightarrow> rows d' = rows d \<Longrightarrow> arrangement d' = arrangement d"
  by (simp add: arrangement_def split: list.splits)

lemma four_rows_valid: "rows_valid four_task_db"
  by (simp add: rows_valid_def four_task_db_def plain_task_def Task_validate_def TaskStatus_def)

lemma four_ordered:
  "order_by_created_at_desc (rows four_task_db) =
     [plain_task 4 40, plain_task 2 30, plain_task 3 20, plain_task 1 10]"
  by (simp add: order_by_created_at_desc_def four_task_db_def plain_task_def)

lemma four_distinct_times: "distinct (map created_at (rows four_task_db))"
  by (simp add: four_task_db_def plain_task_def)

lemma tied_rows_valid: "rows_valid tied_task_db"
  by (simp add: rows_valid_def tied_task_db_def plain_task_def Task_validate_def TaskStatus_def)

lemma tied_first_arrangement:
  "arrangement tied_task_db = [plain_task 1 10, plain_task 2 20, plain_task 3 20, plain_task 4 30]"
  by (simp add: arrangement_def tied_task_db_def)

lemma tied_second_arrangement:
  "arrangement (tied_task_db\<lparr>tie_orders := tl (tie_orders tied_task_db)\<rparr>) =
     [plain_task 1 10, plain_task 3 20, plain_task 2 20, plain_task 4 30]"
proof -
  have "mset [plain_task 1 10, plain_task 3 20, plain_task 2 20, plain_task 4 30] =
        mset [plain_task 1 10, plain_task 2 20, plain_task 3 20, plain_task 4 30]"
    by (simp add: add_mset_commute)
  then show ?thesis by (simp add: arrangement_def tied_task_db_def)
qed

text \<open>
  C5, as the code has it. With valid rows, non-negative \<open>skip\<close> and \<open>limit\<close> and no storage
  failure, a page is an ordering of the table by \<open>created_at\<close> descending, without its
  first \<open>skip\<close> rows and cut at \<open>limit\<close>; the ordering is a rearrangement of the table, and
  the next call is free to order rows of equal \<open>created_at\<close> otherwise. When no two
  records share \<open>created_at\<close> there is one such ordering: a page followed by the page that
  starts where it ends is one contiguous stretch of it, ordered, with no record and (in a
  keyed table) no task twice, and from \<open>skip = 0\<close> two pages that together are long enough
  hold every record exactly as often as the table does.
\<close>

theorem get_tasks_pages:
  assumes "calls_succeed 2 d" and "rows_valid d"
      and "0 \<le> skip" and "0 \<le> limit" and "0 \<le> limit2"
      and "get_tasks d skip limit = (page1, d1)"
      and "get_tasks d1 (skip + limit) limit2 = (page2, d2)"
  shows "page1 = take (nat limit) (drop (nat skip) (order_by_created_at_desc (arrangement d))) \<and>
         page2 = take (nat limit2)
                   (drop (nat skip + nat limit) (order_by_created_at_desc (arrangement d1))) \<and>
         sorted_wrt (\<lambda>a b. created_at b \<le> created_at a) (order_by_created_at_desc (arrangement d)) \<and>
         mset (order_by_created_at_desc (arrangement d)) = mset (rows d) \<and>
         rows d2 = rows d \<and>
         (distinct (map created_at (rows d)) \<longrightarrow>
            order_by_created_at_desc (arrangement d) = order_by_created_at_desc (rows d) \<and>
            page1 @ page2 =
              take (nat limit + nat limit2) (drop (nat skip) (order_by_created_at_desc (rows d))) \<and>
            sorted_wrt (\<lambda>a b. created_at b \<le> created_at a) (page1 @ page2) \<and>
            distinct (page1 @ page2) \<and>
            (keyed d \<longrightarrow> distinct (map task_id (page1 @ page2))) \<and>
            (skip = 0 \<and> length (rows d) \<le> nat limit + nat limit2 \<longrightarrow>
               page1 @ page2 = order_by_created_at_desc (rows d) \<and>
               mset (page1 @ page2) = mset (rows d)))"
proof -
  let ?o = "order_by_created_at_desc (rows d)"
  let ?q1 = "SELECT_PAGE limit skip"
  have c1: "calls_succeed 1 d"
    using assms(1) calls_succeed_mono[of 1 d] by (simp add: numeral_2_eq_2)
  have g1: "get_tasks d skip limit =
      (take (nat limit) (drop (nat skip) (order_by_created_at_desc (arrangement d))),
       (after_call ?q1 d)\<lparr>tie_orders := tl (tie_orders d)\<rparr>)"
    by (rule get_tasks_ok[OF c1 assms(2,3,4)])
  then have p1: "page1 = take (nat limit) (drop (nat skip) (order_by_created_at_desc (arrangement d)))"
    and d1: "d1 = (after_call ?q1 d)\<lparr>tie_orders := tl (tie_orders d)\<rparr>"
    using assms(6) by simp_all
  have r1: "rows d1 = rows d" using d1 by simp
  have c2: "calls_succeed 1 d1"
    using assms(1) calls_succeed_after[of 1 d ?q1] d1
    by (simp add: numeral_2_eq_2 calls_succeed_def)
  have v1: "rows_valid d1" using assms(2) r1 by (simp add: rows_valid_def)
  have "get_tasks d1 (skip + limit) limit2 =
          (take (nat limit2) (drop (nat (skip + limit)) (order_by_created_at_desc (arrangement d1))),
            (after_call (SELECT_PAGE limit2 (skip + limit)) d1)\<lparr>tie_orders := tl (tie_orders d1)\<rparr>)"
    using get_tasks_ok[OF c2 v1, of "skip + limit" limit2] assms(3,4,5) by simp
  then have pd: "page2 = take (nat limit2) (drop (nat (skip + limit)) (order_by_created_at_desc (arrangement d1))) \<and>
                 d2 = (after_call (SELECT_PAGE limit2 (skip + limit)) d1)\<lparr>tie_orders := tl (tie_orders d1)\<rparr>"
    using assms(7) by simp
  have p2: "page2 = take (nat limit2)
                      (drop (nat skip + nat limit) (order_by_created_at_desc (arrangement d1)))"
    using pd assms(3,4) by (simp add: nat_add_distrib)
  have r2: "rows d2 = rows d" using pd r1 by simp
  have so: "sorted_wrt (\<lambda>a b. created_at b \<le> created_at a) (order_by_created_at_desc (arrangement d))"
    by (rule ordered_desc)
  have ms: "mset (order_by_created_at_desc (arrangement d)) = mset (rows d)"
    by (simp add: ordered_mset arrangement_mset)
  have nt: "order_by_created_at_desc (arrangement d) = ?o \<and>
            page1 @ page2 = take (nat limit + nat limit2) (drop (nat skip) ?o) \<and>
            sorted_wrt (\<lambda>a b. created_at b \<le> created_at a) (page1 @ page2) \<and>
            distinct (page1 @ page2) \<and>
            (keyed d \<longrightarrow> distinct (map task_id (page1 @ page2))) \<and>
            (skip = 0 \<and> length (rows d) \<le> nat limit + nat limit2 \<longrightarrow>
               page1 @ page2 = ?o \<and> mset (page1 @ page2) = mset (rows d))"
    if dt: "distinct (map created_at (rows d))"
  proof -
    have u: "order_by_created_at_desc (arrangement d) = ?o"
      by (rule ordered_unique[OF dt])
    have "distinct (map created_at (rows d1))" using dt r1 by simp
    then have u1: "order_by_created_at_desc (arrangement d1) = ?o"
      using ordered_unique[of d1] r1 by simp
    have app: "page1 @ page2 = take (nat limit + nat limit2) (drop (nat skip) ?o)"
      by (simp add: p1 p2 u u1 take_add add.commute)
    have sp: "sorted_wrt (\<lambda>a b. created_at b \<le> created_at a) (page1 @ page2)"
      unfolding app using ordered_desc[of "rows d"] by simp
    have "distinct (rows d)" using dt by (simp add: distinct_map)
    then have "distinct ?o" by (simp add: order_by_created_at_desc_def)
    then have dp: "distinct (page1 @ page2)" unfolding app by simp
    have di: "distinct (map task_id (page1 @ page2))" if "keyed d"
    proof -
      have "distinct (map task_id ?o)"
        using that by (simp add: keyed_def ordered_keys_distinct)
      then have "distinct (take (nat limit + nat limit2) (drop (nat skip) (map task_id ?o)))"
        by simp
      then show ?thesis unfolding app by (simp add: take_map drop_map)
    qed
    have al: "page1 @ page2 = ?o \<and> mset (page1 @ page2) = mset (rows d)"
      if "skip = 0 \<and> length (rows d) \<le> nat limit + nat limit2"
    proof -
      have "length ?o = length (rows d)" by (simp add: order_by_created_at_desc_def)
      then have "page1 @ page2 = ?o" unfolding app using that by simp
      then show ?thesis by (simp add: ordered_mset)
    qed
    show ?thesis using u app sp dp di al by blast
  qed
  show ?thesis using p1 p2 so ms r2 nt by blast
qed

theorem get_tasks_pages_witness:
  "calls_succeed 2 four_task_db \<and> rows_valid four_task_db \<and> keyed four_task_db \<and>
   distinct (map created_at (rows four_task_db)) \<and>
   length (rows four_task_db) = 4 \<and>
   fst (get_tasks four_task_db 0 2) = [plain_task 4 40, plain_task 2 30] \<and>
   fst (get_tasks (snd (get_tasks four_task_db 0 2)) 2 2) = [plain_task 3 20, plain_task 1 10] \<and>
   mset [plain_task 4 40, plain_task 2 30, plain_task 3 20, plain_task 1 10]
     = mset (rows four_task_db) \<and>
   distinct (map task_id [plain_task 4 40, plain_task 2 30, plain_task 3 20, plain_task 1 10]) \<and>
   sorted_wrt (\<lambda>a b. created_at b \<le> created_at a)
     [plain_task 4 40, plain_task 2 30, plain_task 3 20, plain_task 1 10]"
proof -
  let ?d1 = "(after_call (SELECT_PAGE 2 0) four_task_db)\<lparr>tie_orders := tl (tie_orders four_task_db)\<rparr>"
  let ?d2 = "(after_call (SELECT_PAGE 2 2) ?d1)\<lparr>tie_orders := tl (tie_orders ?d1)\<rparr>"
  have c: "calls_succeed 2 four_task_db" by (simp add: calls_succeed_def four_task_db_def)
  have c1: "calls_succeed 1 four_task_db" by (simp add: calls_succeed_def four_task_db_def)
  have c2: "calls_succeed 1 ?d1" by (simp add: calls_succeed_def four_task_db_def after_call_def)
  have k: "keyed four_task_db" by (simp add: keyed_def four_task_db_def plain_task_def)
  have l: "length (rows four_task_db) = 4" by (simp add: four_task_db_def)
  have v1: "rows_valid ?d1" using four_rows_valid by (simp add: rows_valid_def)
  have o0: "order_by_created_at_desc (arrangement four_task_db) =
              [plain_task 4 40, plain_task 2 30, plain_task 3 20, plain_task 1 10]"
    using ordered_unique[OF four_distinct_times] four_ordered by simp
  have o1: "order_by_created_at_desc (arrangement ?d1) =
              [plain_task 4 40, plain_task 2 30, plain_task 3 20, plain_task 1 10]"
    using ordered_unique[of ?d1] four_distinct_times four_ordered by simp
  have g1: "get_tasks four_task_db 0 2 = ([plain_task 4 40, plain_task 2 30], ?d1)"
    using get_tasks_ok[OF c1 four_rows_valid, of 0 2] by (simp add: o0)
  have g2: "get_tasks ?d1 (0 + 2) 2 = ([plain_task 3 20, plain_task 1 10], ?d2)"
    using get_tasks_ok[OF c2 v1, of 2 2] by (simp add: o1)
  have z: "(0::int) \<le> 0" "(0::int) \<le> 2" by simp_all
  note pages = get_tasks_pages[OF c four_rows_valid z(1) z(2) z(2) g1 g2]
  let ?all = "[plain_task 4 40, plain_task 2 30, plain_task 3 20, plain_task 1 10]"
  have a: "[plain_task 4 40, plain_task 2 30] @ [plain_task 3 20, plain_task 1 10] = ?all"
    by simp
  have n: "(0::int) = 0 \<and> length (rows four_task_db) \<le> nat 2 + nat 2"
    using l by simp
  have m: "mset ?all = mset (rows four_task_db)"
    using pages n four_distinct_times unfolding a by blast
  have di: "distinct (map task_id ?all)"
    using pages k four_distinct_times unfolding a by blast
  have so: "sorted_wrt (\<lambda>a b. created_at b \<le> created_at a) ?all"
    using pages four_distinct_times unfolding a by blast
  have f1: "fst (get_tasks four_task_db 0 2) = [plain_task 4 40, plain_task 2 30]"
    using g1 by simp
  have f2: "fst (get_tasks (snd (get_tasks four_task_db 0 2)) 2 2)
              = [plain_task 3 20, plain_task 1 10]"
    using g1 g2 by simp
  show ?thesis
    using c four_rows_valid k four_distinct_times l f1 f2 m di so by (intro conjI)
qed

text \<open>
  The claim as stated fails: over four stored records, two of them with the same
  \<open>created_at\<close>, the page with \<open>skip = 0\<close>, \<open>limit = 2\<close> and the page with \<open>skip = 2\<close>,
  \<open>limit = 2\<close> both hold task 3 and neither holds task 2, each call having returned the
  rows ordered by \<open>created_at\<close> descending.
\<close>

theorem get_tasks_pages_overlap_on_ties:
  "calls_succeed 2 tied_task_db \<and> rows_valid tied_task_db \<and> keyed tied_task_db \<and>
   length (rows tied_task_db) = 4 \<and>
   fst (get_tasks tied_task_db 0 2) = [plain_task 4 30, plain_task 3 20] \<and>
   fst (get_tasks (snd (get_tasks tied_task_db 0 2)) 2 2) = [plain_task 3 20, plain_task 1 10]"
proof -
  let ?d1 = "(after_call (SELECT_PAGE 2 0) tied_task_db)\<lparr>tie_orders := tl (tie_orders tied_task_db)\<rparr>"
  have c: "calls_succeed 2 tied_task_db" by (simp add: calls_succeed_def tied_task_db_def)
  have c1: "calls_succeed 1 tied_task_db" by (simp add: calls_succeed_def tied_task_db_def)
  have c2: "calls_succeed 1 ?d1" by (simp add: calls_succeed_def tied_task_db_def after_call_def)
  have k: "keyed tied_task_db" by (simp add: keyed_def tied_task_db_def plain_task_def)
  have l: "length (rows tied_task_db) = 4" by (simp add: tied_task_db_def)
  have v1: "rows_valid ?d1" using tied_rows_valid by (simp add: rows_valid_def)
  have a1: "arrangement ?d1 = [plain_task 1 10, plain_task 3 20, plain_task 2 20, plain_task 4 30]"
    using tied_second_arrangement
      arrangement_cong[of ?d1 "tied_task_db\<lparr>tie_orders := tl (tie_orders tied_task_db)\<rparr>"]
    by simp
  have g1: "fst (get_tasks tied_task_db 0 2) = [plain_task 4 30, plain_task 3 20] \<and>
            snd (get_tasks tied_task_db 0 2) = ?d1"
    using get_tasks_ok[OF c1 tied_rows_valid, of 0 2]
    by (simp add: tied_first_arrangement order_by_created_at_desc_def plain_task_def)
  have g2: "fst (get_tasks ?d1 2 2) = [plain_task 3 20, plain_task 1 10]"
    using get_tasks_ok[OF c2 v1, of 2 2]
    by (simp add: a1 order_by_created_at_desc_def plain_task_def)
  show ?thesis using c tied_rows_valid k l g1 g2 by simp
qed

end
